theory Spec2Isabelle
  imports Complex_Main "HOL-Library.Log_Nat"
begin

section \<open>Forecasting performance metrics: \<open>mase_score\<close> and \<open>smape_score\<close>\<close>

text \<open>
  A shallow embedding of \<^verbatim>\<open>sktime/performance_metrics/forecasting.py\<close>. The two
  functions take pandas Series with \<^verbatim>\<open>float64\<close> values and return a
  \<^verbatim>\<open>numpy.float64\<close> or raise. The embedding has three layers:
  \<^item> the numbers: IEEE-754 binary64 values with round-to-nearest, ties-to-even;
  \<^item> the library calls the source makes (\<^verbatim>\<open>np.abs\<close>, \<^verbatim>\<open>np.mean\<close>, slicing,
    Series arithmetic);
  \<^item> the two functions themselves, with every \<^verbatim>\<open>raise\<close> as a value \<open>Inl e\<close>.
\<close>

subsection \<open>binary64 numbers\<close>

text \<open>
  A \<^verbatim>\<open>float64\<close> is a finite number, one of the two infinities, or NaN. The two
  zeros \<^verbatim>\<open>+0.0\<close> and \<^verbatim>\<open>-0.0\<close> are both \<open>Fin 0\<close>: Python's \<^verbatim>\<open>==\<close> does not
  tell them apart, and the only quantities this module divides by (a sum of absolute
  values, a mean of absolute values, an element count) are never \<^verbatim>\<open>-0.0\<close>.
\<close>

datatype float64 = Fin real | PInf | NInf | NaN

text \<open>Rounding a rational to the nearest integer, a tie going to the even neighbour.\<close>

definition round_half_even :: "real \<Rightarrow> int" where
  "round_half_even q =
     (let f = \<lfloor>q\<rfloor>; d = q - of_int f
      in if d < 1 / 2 then f
         else if 1 / 2 < d then f + 1
         else if even f then f else f + 1)"

text \<open>
  Every finite binary64 number is an integer multiple of \<open>2 ^ - 1074\<close>. For a magnitude
  \<open>t\<close> counted in that unit, the spacing of the representable numbers around \<open>t\<close> is
  \<open>2 ^ quantum_exp t\<close> units: one unit up to \<open>2 ^ 53\<close> (the subnormal numbers and the first
  binade), and such that 53 significant bits remain above that.
\<close>

definition quantum_exp :: "real \<Rightarrow> nat" where
  "quantum_exp t = floorlog 2 (nat \<lfloor>t\<rfloor>) - 53"

definition round_units :: "real \<Rightarrow> real" where
  "round_units t = of_int (round_half_even (t / 2 ^ quantum_exp t)) * 2 ^ quantum_exp t"

text \<open>
  \<open>rnd_real x\<close> is the representable number nearest to \<open>x\<close> if the exponent range had
  no upper end. \<open>rnd x\<close> is the binary64 result of an operation whose exact result is
  \<open>x\<close>: that number, or an infinity when it is \<open>2 ^ 1024\<close> or beyond.
\<close>

definition rnd_real :: "real \<Rightarrow> real" where
  "rnd_real x = sgn x * round_units (\<bar>x\<bar> * 2 ^ 1074) / 2 ^ 1074"

definition rnd :: "real \<Rightarrow> float64" where
  "rnd x =
     (let r = rnd_real x
      in if 2 ^ 1024 \<le> \<bar>r\<bar> then (if 0 < x then PInf else NInf) else Fin r)"

text \<open>A value is a binary64 number when rounding leaves it as it is.\<close>

definition is_float64 :: "float64 \<Rightarrow> bool" where
  "is_float64 v = (case v of Fin r \<Rightarrow> rnd r = Fin r | _ \<Rightarrow> True)"

definition is_finite :: "float64 \<Rightarrow> bool" where
  "is_finite v = (case v of Fin r \<Rightarrow> True | _ \<Rightarrow> False)"

text \<open>The value is a finite number of the closed interval from \<open>lo\<close> to \<open>hi\<close>.\<close>

definition in_range :: "real \<Rightarrow> real \<Rightarrow> float64 \<Rightarrow> bool" where
  "in_range lo hi v = (case v of Fin r \<Rightarrow> lo \<le> r \<and> r \<le> hi | _ \<Rightarrow> False)"

text \<open>The largest finite binary64 number, \<^verbatim>\<open>1.7976931348623157e308\<close>.\<close>

definition max_float64 :: real where
  "max_float64 = (2 ^ 53 - 1) * 2 ^ 971"

fun fneg :: "float64 \<Rightarrow> float64" where
  "fneg (Fin a) = Fin (- a)"
| "fneg PInf = NInf"
| "fneg NInf = PInf"
| "fneg NaN = NaN"

fun fabs :: "float64 \<Rightarrow> float64" where
  "fabs (Fin a) = Fin \<bar>a\<bar>"
| "fabs PInf = PInf"
| "fabs NInf = PInf"
| "fabs NaN = NaN"

fun fadd :: "float64 \<Rightarrow> float64 \<Rightarrow> float64" where
  "fadd NaN y = NaN"
| "fadd x NaN = NaN"
| "fadd PInf NInf = NaN"
| "fadd NInf PInf = NaN"
| "fadd PInf y = PInf"
| "fadd x PInf = PInf"
| "fadd NInf y = NInf"
| "fadd x NInf = NInf"
| "fadd (Fin a) (Fin b) = rnd (a + b)"

definition fsub :: "float64 \<Rightarrow> float64 \<Rightarrow> float64" where
  "fsub x y = fadd x (fneg y)"

fun fmul :: "float64 \<Rightarrow> float64 \<Rightarrow> float64" where
  "fmul NaN y = NaN"
| "fmul x NaN = NaN"
| "fmul (Fin a) (Fin b) = rnd (a * b)"
| "fmul (Fin a) PInf = (if a = 0 then NaN else if 0 < a then PInf else NInf)"
| "fmul (Fin a) NInf = (if a = 0 then NaN else if 0 < a then NInf else PInf)"
| "fmul PInf (Fin b) = (if b = 0 then NaN else if 0 < b then PInf else NInf)"
| "fmul NInf (Fin b) = (if b = 0 then NaN else if 0 < b then NInf else PInf)"
| "fmul PInf PInf = PInf"
| "fmul PInf NInf = NInf"
| "fmul NInf PInf = NInf"
| "fmul NInf NInf = PInf"

text \<open>
  numpy's true division does not raise on a zero divisor: \<^verbatim>\<open>0/0\<close> is NaN and
  \<^verbatim>\<open>x/0\<close> is an infinity with the sign of \<open>x\<close> (the divisor being \<^verbatim>\<open>+0.0\<close>).
\<close>

fun fdiv :: "float64 \<Rightarrow> float64 \<Rightarrow> float64" where
  "fdiv NaN y = NaN"
| "fdiv x NaN = NaN"
| "fdiv (Fin a) (Fin b) =
     (if b = 0 then (if a = 0 then NaN else if 0 < a then PInf else NInf)
      else rnd (a / b))"
| "fdiv (Fin a) PInf = Fin 0"
| "fdiv (Fin a) NInf = Fin 0"
| "fdiv PInf (Fin b) = (if 0 \<le> b then PInf else NInf)"
| "fdiv NInf (Fin b) = (if 0 \<le> b then NInf else PInf)"
| "fdiv x y = NaN"

text \<open>
  The smallest positive normal binary64 number, \<^verbatim>\<open>2.2250738585072014e-308\<close>.
\<close>

definition min_normal :: real where
  "min_normal = 1 / 2 ^ 1022"

text \<open>
  Multiplying \<open>v\<close> by \<open>c\<close> neither overflows nor underflows: \<open>v\<close> is zero, or both \<open>v\<close> and
  \<open>c * v\<close> lie in the range of the normal binary64 numbers.
\<close>

definition scales_exactly :: "real \<Rightarrow> real \<Rightarrow> bool" where
  "scales_exactly c v =
     (v = 0 \<or> (min_normal \<le> \<bar>v\<bar> \<and> \<bar>v\<bar> \<le> max_float64
               \<and> min_normal \<le> \<bar>c * v\<bar> \<and> \<bar>c * v\<bar> \<le> max_float64))"

text \<open>
  The same for one point of two series: for the two values, their difference and the
  sum of their absolute values.
\<close>

definition point_scales :: "real \<Rightarrow> float64 \<Rightarrow> float64 \<Rightarrow> bool" where
  "point_scales c t p =
     (case (t, p) of
        (Fin x, Fin y) \<Rightarrow>
          scales_exactly c x \<and> scales_exactly c y
          \<and> scales_exactly c (x - y) \<and> scales_exactly c (\<bar>x\<bar> + \<bar>y\<bar>)
      | _ \<Rightarrow> False)"

subsection \<open>Errors\<close>

text \<open>
  The exceptions a call can end in. \<open>ValueError\<close> carries its message; the two named
  errors are those of the validation module.
\<close>

datatype error = InconsistentIndexError | InvalidHorizonError | ValueError string

subsection \<open>pandas Series and numpy arrays\<close>

text \<open>
  A Series pairs a time index (integer time points) with as many \<^verbatim>\<open>float64\<close> values.
  A one-dimensional \<^verbatim>\<open>ndarray\<close> is the list of its elements.
\<close>

record series =
  index :: "int list"
  "values" :: "float64 list"

definition wf_series :: "series \<Rightarrow> bool" where
  "wf_series s = (length (index s) = length (values s))"

text \<open>
  Arithmetic between two Series aligns them on their indices. Both functions apply it
  only after \<^verbatim>\<open>check_consistent_time_indices\<close> has passed, when the indices are
  equal and the alignment pairs the values position by position.
\<close>

definition series_sub :: "series \<Rightarrow> series \<Rightarrow> series" where
  "series_sub a b = \<lparr>index = index a, values = map2 fsub (values a) (values b)\<rparr>"

definition series_add :: "series \<Rightarrow> series \<Rightarrow> series" where
  "series_add a b = \<lparr>index = index a, values = map2 fadd (values a) (values b)\<rparr>"

definition series_div :: "series \<Rightarrow> series \<Rightarrow> series" where
  "series_div a b = \<lparr>index = index a, values = map2 fdiv (values a) (values b)\<rparr>"

definition series_abs :: "series \<Rightarrow> series" where
  "series_abs a = \<lparr>index = index a, values = map fabs (values a)\<rparr>"

text \<open>The product \<^verbatim>\<open>c * s\<close> of a scalar and a Series.\<close>

definition series_scale :: "float64 \<Rightarrow> series \<Rightarrow> series" where
  "series_scale c s = \<lparr>index = index s, values = map (fmul c) (values s)\<rparr>"

text \<open>
  \<^verbatim>\<open>np.mean\<close> of an \<^verbatim>\<open>ndarray\<close>: the sum of the elements divided by their number,
  with no check for an empty array (\<^verbatim>\<open>0.0 / 0\<close> is NaN). The sum is taken from left
  to right, which is numpy's order for fewer than eight elements; longer arrays numpy
  adds in blocks, which can change the last bits of the sum and nothing else.
\<close>

definition np_sum :: "float64 list \<Rightarrow> float64" where
  "np_sum xs = foldl fadd (Fin 0) xs"

definition np_mean :: "float64 list \<Rightarrow> float64" where
  "np_mean xs = fdiv (np_sum xs) (rnd (real (length xs)))"

text \<open>
  \<^verbatim>\<open>np.mean\<close> of a Series is not numpy's reduction: for an argument that is not an
  \<^verbatim>\<open>ndarray\<close> numpy calls the argument's own \<^verbatim>\<open>mean\<close> method, and
  \<^verbatim>\<open>Series.mean\<close> has \<^verbatim>\<open>skipna=True\<close> by default. It replaces every NaN by zero,
  sums, and divides by the number of values that are not NaN; with no such value the
  mean is NaN. Infinities are not missing values and stay in the sum.
\<close>

definition series_mean :: "series \<Rightarrow> float64" where
  "series_mean s =
     (let count = length (filter (\<lambda>v. v \<noteq> NaN) (values s));
          the_sum = np_sum (map (\<lambda>v. if v = NaN then Fin 0 else v) (values s))
      in if 0 < count then fdiv the_sum (rnd (real count)) else NaN)"

definition np_asarray :: "series \<Rightarrow> float64 list" where
  "np_asarray s = values s"

text \<open>
  Python's slices \<^verbatim>\<open>a[i:]\<close> and \<^verbatim>\<open>a[:j]\<close>: a negative bound counts from the end,
  and a bound outside the array is clipped, never an error.
\<close>

definition slice_bound :: "nat \<Rightarrow> int \<Rightarrow> nat" where
  "slice_bound n i = (if i < 0 then nat (max (int n + i) 0) else nat (min i (int n)))"

definition slice_from :: "'a list \<Rightarrow> int \<Rightarrow> 'a list" where
  "slice_from a i = drop (slice_bound (length a) i) a"

definition slice_to :: "'a list \<Rightarrow> int \<Rightarrow> 'a list" where
  "slice_to a j = take (slice_bound (length a) j) a"

text \<open>
  Subtracting two one-dimensional arrays: element by element when the lengths agree, an
  array of length one is broadcast against the other, and any other pair of lengths is a
  \<^verbatim>\<open>ValueError\<close> (the shapes that end numpy's message are left out).
\<close>

definition ndarray_sub :: "float64 list \<Rightarrow> float64 list \<Rightarrow> error + float64 list" where
  "ndarray_sub xs ys =
     (if length xs = length ys then Inr (map2 fsub xs ys)
      else if length xs = 1 then Inr (map (\<lambda>y. fsub (hd xs) y) ys)
      else if length ys = 1 then Inr (map (\<lambda>x. fsub x (hd ys)) xs)
      else Inl (ValueError ''operands could not be broadcast together''))"

text \<open>
  \<^verbatim>\<open>max()\<close> and \<^verbatim>\<open>min()\<close> of an index. pandas gives NaN for an empty index, here
  \<open>None\<close>, and a comparison with NaN is false.
\<close>

fun index_max :: "int list \<Rightarrow> int option" where
  "index_max [] = None"
| "index_max (x # xs) = Some (fold max xs x)"

fun index_min :: "int list \<Rightarrow> int option" where
  "index_min [] = None"
| "index_min (x # xs) = Some (fold min xs x)"

fun ge_opt :: "int option \<Rightarrow> int option \<Rightarrow> bool" where
  "ge_opt (Some a) (Some b) = (b \<le> a)"
| "ge_opt a b = False"

subsection \<open>The validation helpers\<close>

text \<open>
  Modelled from the spec: \<^verbatim>\<open>check_consistent_time_indices\<close> of
  \<^verbatim>\<open>sktime.utils.validation.forecasting\<close>, which the module imports. It fails with an
  \<^verbatim>\<open>InconsistentIndexError\<close> if the two series' time indices differ (different
  length, different timestamps, or different order).
\<close>

definition check_consistent_time_indices :: "series \<Rightarrow> series \<Rightarrow> error + unit" where
  "check_consistent_time_indices x y =
     (if index x = index y then Inr () else Inl InconsistentIndexError)"

text \<open>
  Modelled from the spec: \<^verbatim>\<open>validate_obs_horizon\<close> of the same module. It takes an
  index or a series, fails with an \<^verbatim>\<open>InvalidHorizonError\<close> if the index is not
  monotonically ordered, and returns the validated index.
\<close>

datatype index_or_series = AnIndex "int list" | ASeries series

definition validate_obs_horizon :: "index_or_series \<Rightarrow> error + int list" where
  "validate_obs_horizon a =
     (let ix = (case a of AnIndex i \<Rightarrow> i | ASeries s \<Rightarrow> index s)
      in if sorted ix then Inr ix else Inl InvalidHorizonError)"

subsection \<open>The two scores\<close>

definition not_before_msg :: string where
  "not_before_msg = ''Found y_train with time index which is not before time index of y_pred''"

definition mase_score :: "series \<Rightarrow> series \<Rightarrow> series \<Rightarrow> int \<Rightarrow> error + float64" where
  "mase_score y_true y_pred y_train sp =
     (case check_consistent_time_indices y_true y_pred of
        Inl e \<Rightarrow> Inl e
      | Inr _ \<Rightarrow>
     (case validate_obs_horizon (AnIndex (index y_train)) of
        Inl e \<Rightarrow> Inl e
      | Inr train_index \<Rightarrow>
     (case validate_obs_horizon (ASeries y_pred) of
        Inl e \<Rightarrow> Inl e
      | Inr pred_index \<Rightarrow>
     if ge_opt (index_max train_index) (index_min pred_index)
     then Inl (ValueError not_before_msg)
     else
       let y_train' = np_asarray y_train;
           y_pred_naive = slice_to y_train' (- sp)
       in (case ndarray_sub (slice_from y_train' sp) y_pred_naive of
             Inl e \<Rightarrow> Inl e
           | Inr d \<Rightarrow>
               let mae_naive = np_mean (map fabs d)
               in Inr (fdiv (fneg (series_mean (series_abs (series_sub y_true y_pred))))
                         mae_naive)))))"

definition smape_score :: "series \<Rightarrow> series \<Rightarrow> error + float64" where
  "smape_score y_true y_pred =
     (case check_consistent_time_indices y_true y_pred of
        Inl e \<Rightarrow> Inl e
      | Inr _ \<Rightarrow>
          let nominator = series_abs (series_sub y_true y_pred);
              denominator = series_add (series_abs y_true) (series_abs y_pred)
          in Inr (fmul (Fin (- 2)) (series_mean (series_div nominator denominator))))"

subsection \<open>The formulas of the specification\<close>

text \<open>
  These definitions follow the words of the specification, not the source. The mean of
  the specification is the sum of all terms divided by their number, which is what
  \<open>np_mean\<close> computes.

  SMAPE: per point the ratio \<open>|y_true_i - y_pred_i| / (|y_true_i| + |y_pred_i|)\<close>, and
  the result is \<open>-2\<close> times the mean of the ratio over all points.
\<close>

definition smape_spec :: "float64 list \<Rightarrow> float64 list \<Rightarrow> float64" where
  "smape_spec y_true y_pred =
     fmul (Fin (- 2))
       (np_mean (map2 (\<lambda>t p. fdiv (fabs (fsub t p)) (fadd (fabs t) (fabs p))) y_true y_pred))"

text \<open>
  MASE: for each position \<open>i\<close> from \<open>sp\<close> to \<open>n_obs - 1\<close> the naive forecast is
  \<open>y_train[i - sp]\<close>; \<open>mae_naive\<close> is the mean absolute error of these forecasts,
  \<open>mae_pred\<close> the mean of \<open>|y_true - y_pred|\<close> over the horizon, and the result is
  \<open>- mae_pred / mae_naive\<close>.
\<close>

definition mae_naive_spec :: "float64 list \<Rightarrow> nat \<Rightarrow> float64" where
  "mae_naive_spec y_train sp =
     np_mean (map (\<lambda>i. fabs (fsub (y_train ! i) (y_train ! (i - sp)))) [sp..<length y_train])"

definition mae_pred_spec :: "float64 list \<Rightarrow> float64 list \<Rightarrow> float64" where
  "mae_pred_spec y_true y_pred = np_mean (map2 (\<lambda>t p. fabs (fsub t p)) y_true y_pred)"

definition mase_spec :: "float64 list \<Rightarrow> float64 list \<Rightarrow> float64 list \<Rightarrow> nat \<Rightarrow> float64" where
  "mase_spec y_true y_pred y_train sp =
     fdiv (fneg (mae_pred_spec y_true y_pred)) (mae_naive_spec y_train sp)"

section \<open>Properties of the rounding\<close>

subsection \<open>Rounding to an integer\<close>

lemma round_half_even_of_int: "round_half_even (of_int n) = n"
  by (simp add: round_half_even_def)

lemma round_half_even_bounds:
  "of_int (round_half_even q) \<le> q + 1 / 2" "q - 1 / 2 \<le> of_int (round_half_even q)"
  unfolding round_half_even_def Let_def by (auto split: if_splits) linarith+

lemma round_half_even_mono:
  assumes "q \<le> r"
  shows "round_half_even q \<le> round_half_even r"
proof -
  have fl: "\<lfloor>q\<rfloor> \<le> \<lfloor>r\<rfloor>" using assms by (rule floor_mono)
  show ?thesis
  proof (cases "\<lfloor>q\<rfloor> = \<lfloor>r\<rfloor>")
    case True
    then show ?thesis using assms
      unfolding round_half_even_def Let_def by (auto split: if_splits)
  next
    case False
    with fl have "\<lfloor>q\<rfloor> + 1 \<le> \<lfloor>r\<rfloor>" by simp
    moreover have "round_half_even q \<le> \<lfloor>q\<rfloor> + 1"
      unfolding round_half_even_def Let_def by (auto split: if_splits)
    moreover have "\<lfloor>r\<rfloor> \<le> round_half_even r"
      unfolding round_half_even_def Let_def by (auto split: if_splits)
    ultimately show ?thesis by linarith
  qed
qed

lemma quantum_exp_upper:
  assumes "0 \<le> t"
  shows "t < 2 ^ (53 + quantum_exp t)"
proof -
  define n where "n = nat \<lfloor>t\<rfloor>"
  have tn: "t < real n + 1" unfolding n_def using assms by linarith
  have q: "quantum_exp t = floorlog 2 n - 53" by (simp add: quantum_exp_def n_def)
  show ?thesis
  proof (cases "n = 0")
    case True
    then have "t < 1" using tn by simp
    also have "(1::real) \<le> 2 ^ (53 + quantum_exp t)" by simp
    finally show ?thesis .
  next
    case False
    then have pos: "0 < n" by simp
    have "2 ^ (floorlog 2 n - 1) \<le> n \<and> n < 2 ^ floorlog 2 n"
      by (rule floorlog_bounds) (use pos in simp_all)
    then have "Suc n \<le> 2 ^ floorlog 2 n" by simp
    then have "real (Suc n) \<le> real (2 ^ floorlog 2 n)" by (rule of_nat_mono)
    then have "real n + 1 \<le> 2 ^ floorlog 2 n" by simp
    with tn have "t < 2 ^ floorlog 2 n" by linarith
    also have "(2::real) ^ floorlog 2 n \<le> 2 ^ (53 + quantum_exp t)"
      by (rule power_increasing) (simp_all add: q)
    finally show ?thesis .
  qed
qed

lemma quantum_exp_lower:
  assumes "0 < quantum_exp t"
  shows "2 ^ (52 + quantum_exp t) \<le> t"
proof -
  define n where "n = nat \<lfloor>t\<rfloor>"
  have q: "quantum_exp t = floorlog 2 n - 53" by (simp add: quantum_exp_def n_def)
  from assms have fl: "53 < floorlog 2 n" by (simp add: q)
  then have pos: "0 < n" by (auto simp: floorlog_def split: if_splits)
  then have nt: "real n \<le> t" unfolding n_def by linarith
  have "2 ^ (floorlog 2 n - 1) \<le> n \<and> n < 2 ^ floorlog 2 n"
    by (rule floorlog_bounds) (use pos in simp_all)
  then have "2 ^ (floorlog 2 n - 1) \<le> n" ..
  then have "real (2 ^ (floorlog 2 n - 1)) \<le> real n" by (rule of_nat_mono)
  moreover have "floorlog 2 n - 1 = 52 + quantum_exp t"
    using fl by (simp add: q)
  ultimately have "(2::real) ^ (52 + quantum_exp t) \<le> real n" by simp
  with nt show ?thesis by linarith
qed

lemma quantum_exp_mono:
  assumes "t \<le> u"
  shows "quantum_exp t \<le> quantum_exp u"
proof -
  have "nat \<lfloor>t\<rfloor> \<le> nat \<lfloor>u\<rfloor>" using assms by (simp add: floor_mono nat_mono)
  then have "floorlog 2 (nat \<lfloor>t\<rfloor>) \<le> floorlog 2 (nat \<lfloor>u\<rfloor>)" by (rule floorlog_mono)
  then show ?thesis by (simp add: quantum_exp_def)
qed

lemma quantum_exp_small:
  assumes "t < 2 ^ 53"
  shows "quantum_exp t = 0"
proof (rule ccontr)
  assume "quantum_exp t \<noteq> 0"
  then have "0 < quantum_exp t" by simp
  then have "2 ^ (52 + quantum_exp t) \<le> t" by (rule quantum_exp_lower)
  moreover have "(2::real) ^ 53 \<le> 2 ^ (52 + quantum_exp t)"
    using \<open>0 < quantum_exp t\<close> by (intro power_increasing) simp_all
  ultimately show False using assms by linarith
qed

lemma quantum_exp_eq:
  assumes "2 ^ (52 + s) \<le> t" "t < 2 ^ (53 + s)"
  shows "quantum_exp t = s"
proof -
  have t0: "0 \<le> t" using assms(1) by (meson order_trans zero_le_numeral zero_le_power)
  have up: "t < 2 ^ (53 + quantum_exp t)" using t0 by (rule quantum_exp_upper)
  have "\<not> s < quantum_exp t"
  proof
    assume lt: "s < quantum_exp t"
    then have "2 ^ (52 + quantum_exp t) \<le> t" by (intro quantum_exp_lower) simp
    moreover have "(2::real) ^ (53 + s) \<le> 2 ^ (52 + quantum_exp t)"
      using lt by (intro power_increasing) simp_all
    ultimately show False using assms(2) by linarith
  qed
  moreover have "\<not> quantum_exp t < s"
  proof
    assume lt: "quantum_exp t < s"
    have "(2::real) ^ (53 + quantum_exp t) \<le> 2 ^ (52 + s)"
      using lt by (intro power_increasing) simp_all
    then show False using up assms(1) by linarith
  qed
  ultimately show ?thesis by simp
qed


lemma round_units_le:
  assumes "t \<le> of_int k * 2 ^ quantum_exp t"
  shows "round_units t \<le> of_int k * 2 ^ quantum_exp t"
proof -
  have "t / 2 ^ quantum_exp t \<le> of_int k" using assms by (simp add: field_simps)
  then have "round_half_even (t / 2 ^ quantum_exp t) \<le> round_half_even (of_int k)"
    by (rule round_half_even_mono)
  then have "round_half_even (t / 2 ^ quantum_exp t) \<le> k"
    by (simp add: round_half_even_of_int)
  then have "(of_int (round_half_even (t / 2 ^ quantum_exp t)) :: real) \<le> of_int k"
    by simp
  then show ?thesis unfolding round_units_def by (simp add: mult_right_mono)
qed

lemma round_units_ge:
  assumes "of_int k * 2 ^ quantum_exp t \<le> t"
  shows "of_int k * 2 ^ quantum_exp t \<le> round_units t"
proof -
  have "of_int k \<le> t / 2 ^ quantum_exp t" using assms by (simp add: field_simps)
  then have "round_half_even (of_int k) \<le> round_half_even (t / 2 ^ quantum_exp t)"
    by (rule round_half_even_mono)
  then have "k \<le> round_half_even (t / 2 ^ quantum_exp t)"
    by (simp add: round_half_even_of_int)
  then have "(of_int k :: real) \<le> of_int (round_half_even (t / 2 ^ quantum_exp t))"
    by simp
  then show ?thesis unfolding round_units_def by (simp add: mult_right_mono)
qed

lemma round_units_exact:
  assumes "t = of_int k * 2 ^ quantum_exp t"
  shows "round_units t = t"
  using round_units_le[of t k] round_units_ge[of k t] assms by simp

lemma round_units_nonneg:
  assumes "0 \<le> t"
  shows "0 \<le> round_units t"
  using round_units_ge[of 0 t] assms by simp

lemma round_units_0: "round_units 0 = 0"
  by (simp add: round_units_def round_half_even_def)

lemma round_units_upper:
  assumes "0 \<le> t"
  shows "round_units t \<le> 2 ^ (53 + quantum_exp t)"
proof -
  have "t \<le> of_int (2 ^ 53) * 2 ^ quantum_exp t"
    using quantum_exp_upper[OF assms] by (simp add: power_add)
  then have "round_units t \<le> of_int (2 ^ 53) * 2 ^ quantum_exp t"
    by (rule round_units_le)
  then show ?thesis by (simp add: power_add)
qed

lemma round_units_lower:
  assumes "0 < quantum_exp t"
  shows "2 ^ (52 + quantum_exp t) \<le> round_units t"
proof -
  have "of_int (2 ^ 52) * 2 ^ quantum_exp t \<le> t"
    using quantum_exp_lower[OF assms] by (simp add: power_add)
  then have "of_int (2 ^ 52) * 2 ^ quantum_exp t \<le> round_units t"
    by (rule round_units_ge)
  then show ?thesis by (simp add: power_add)
qed

lemma round_units_mono:
  assumes "0 \<le> t" "t \<le> u"
  shows "round_units t \<le> round_units u"
proof (cases "quantum_exp t = quantum_exp u")
  case True
  have "t / 2 ^ quantum_exp u \<le> u / 2 ^ quantum_exp u"
    using assms(2) by (simp add: divide_right_mono)
  then have "round_half_even (t / 2 ^ quantum_exp u) \<le> round_half_even (u / 2 ^ quantum_exp u)"
    by (rule round_half_even_mono)
  then have "(of_int (round_half_even (t / 2 ^ quantum_exp u)) :: real)
      \<le> of_int (round_half_even (u / 2 ^ quantum_exp u))" by simp
  then show ?thesis unfolding round_units_def True by (simp add: mult_right_mono)
next
  case False
  with quantum_exp_mono[OF assms(2)] have lt: "quantum_exp t < quantum_exp u" by simp
  have "round_units t \<le> 2 ^ (53 + quantum_exp t)" using assms(1) by (rule round_units_upper)
  also have "(2::real) ^ (53 + quantum_exp t) \<le> 2 ^ (52 + quantum_exp u)"
    using lt by (intro power_increasing) simp_all
  also have "\<dots> \<le> round_units u" using lt by (intro round_units_lower) simp
  finally show ?thesis .
qed

subsection \<open>Rounding to binary64\<close>

lemma round_units_dyadic:
  assumes "0 \<le> m" "m \<le> 2 ^ 53"
  shows "round_units (of_int m * 2 ^ e) = of_int m * 2 ^ e"
proof -
  define t :: real where "t = of_int m * 2 ^ e"
  define s where "s = quantum_exp t"
  have t0: "0 \<le> t" using assms(1) by (simp add: t_def)
  have mr: "(of_int m :: real) \<le> 2 ^ 53" using assms(2) by (metis of_int_le_iff of_int_numeral of_int_power)
  have "\<exists>k. t = of_int k * 2 ^ s"
  proof (cases "s \<le> e")
    case True
    then have "(2::real) ^ e = 2 ^ (e - s) * 2 ^ s" by (simp flip: power_add)
    then have "t = of_int (m * 2 ^ (e - s)) * 2 ^ s" by (simp add: t_def)
    then show ?thesis ..
  next
    case False
    then have spos: "0 < s" by simp
    then have lo: "2 ^ (52 + s) \<le> t" unfolding s_def by (intro quantum_exp_lower) simp
    have "t \<le> 2 ^ 53 * 2 ^ e" unfolding t_def using mr by (simp add: mult_right_mono)
    then have up: "t \<le> 2 ^ (53 + e)" by (simp add: power_add)
    from lo up have "(2::real) ^ (52 + s) \<le> 2 ^ (53 + e)" by linarith
    then have "52 + s \<le> 53 + e" by (simp add: power_increasing_iff)
    with False have se: "s = Suc e" by simp
    with lo up have "t = 2 ^ (53 + e)" by simp
    then have "t = of_int (2 ^ 52) * 2 ^ s" by (simp add: se power_add)
    then show ?thesis ..
  qed
  then obtain k where "t = of_int k * 2 ^ quantum_exp t" unfolding s_def ..
  then have "round_units t = t" by (rule round_units_exact)
  then show ?thesis by (simp add: t_def)
qed

lemma rnd_real_0: "rnd_real 0 = 0"
  by (simp add: rnd_real_def)

lemma rnd_real_neg: "rnd_real (- x) = - rnd_real x"
  by (simp add: rnd_real_def sgn_minus)

lemma rnd_real_nonneg:
  assumes "0 \<le> x"
  shows "0 \<le> rnd_real x"
proof -
  have "0 \<le> round_units (\<bar>x\<bar> * 2 ^ 1074)" by (rule round_units_nonneg) simp
  then show ?thesis using assms by (simp add: rnd_real_def sgn_if)
qed

lemma rnd_real_pos_eq:
  assumes "0 \<le> x"
  shows "rnd_real x = round_units (x * 2 ^ 1074) / 2 ^ 1074"
  using assms by (cases "x = 0") (simp_all add: rnd_real_def round_units_0 sgn_if)

lemma rnd_real_mono_nonneg:
  assumes "0 \<le> x" "x \<le> y"
  shows "rnd_real x \<le> rnd_real y"
proof -
  have "round_units (x * 2 ^ 1074) \<le> round_units (y * 2 ^ 1074)"
    using assms by (intro round_units_mono) simp_all
  then show ?thesis using assms by (simp add: rnd_real_pos_eq divide_right_mono)
qed

lemma rnd_real_mono:
  assumes "x \<le> y"
  shows "rnd_real x \<le> rnd_real y"
proof (cases "0 \<le> x")
  case True
  then show ?thesis using assms by (rule rnd_real_mono_nonneg)
next
  case xneg: False
  show ?thesis
  proof (cases "0 \<le> y")
    case True
    have "0 \<le> rnd_real (- x)" using xneg by (intro rnd_real_nonneg) simp
    then have "rnd_real x \<le> 0" by (simp add: rnd_real_neg)
    also have "0 \<le> rnd_real y" using True by (rule rnd_real_nonneg)
    finally show ?thesis .
  next
    case False
    then have "rnd_real (- y) \<le> rnd_real (- x)"
      using assms by (intro rnd_real_mono_nonneg) simp_all
    then show ?thesis by (simp add: rnd_real_neg)
  qed
qed

lemma rnd_real_abs: "\<bar>rnd_real x\<bar> = rnd_real \<bar>x\<bar>"
proof (cases "0 \<le> x")
  case True
  then show ?thesis using rnd_real_nonneg[of x] by simp
next
  case False
  then have "0 \<le> rnd_real (- x)" by (intro rnd_real_nonneg) simp
  then show ?thesis using False by (simp add: rnd_real_neg abs_if)
qed

lemma rnd_real_dyadic:
  assumes "\<bar>m\<bar> \<le> 2 ^ 53"
  shows "rnd_real (of_int m * 2 ^ e / 2 ^ 1074) = of_int m * 2 ^ e / 2 ^ 1074"
proof -
  have pos: "rnd_real (of_int k * 2 ^ e / 2 ^ 1074) = of_int k * 2 ^ e / 2 ^ 1074"
    if "0 \<le> k" "k \<le> 2 ^ 53" for k :: int
  proof -
    have "0 \<le> (of_int k :: real) * 2 ^ e / 2 ^ 1074" using that(1) by simp
    then show ?thesis using round_units_dyadic[OF that, of e]
      by (simp add: rnd_real_pos_eq)
  qed
  show ?thesis
  proof (cases "0 \<le> m")
    case True
    then show ?thesis using assms by (intro pos) simp_all
  next
    case False
    then have "rnd_real (of_int (- m) * 2 ^ e / 2 ^ 1074) = of_int (- m) * 2 ^ e / 2 ^ 1074"
      using assms by (intro pos) simp_all
    then have "rnd_real (- (of_int m * 2 ^ e / 2 ^ 1074)) = - (of_int m * 2 ^ e / 2 ^ 1074)"
      by simp
    then show ?thesis unfolding rnd_real_neg by simp
  qed
qed

lemma rnd_real_of_nat:
  assumes "k \<le> 2 ^ 53"
  shows "rnd_real (real k) = real k"
proof -
  have "\<bar>int k\<bar> \<le> 2 ^ 53" using assms by (metis abs_of_nat of_nat_le_iff of_nat_numeral of_nat_power)
  from rnd_real_dyadic[OF this, of 1074] show ?thesis by simp
qed

lemma rnd_0: "rnd 0 = Fin 0"
  by (simp add: rnd_def rnd_real_0)

lemma rnd_neg: "rnd (- x) = fneg (rnd x)"
  by (cases "x = 0") (auto simp: rnd_def Let_def rnd_real_neg rnd_real_0 not_less
      dest: rnd_real_nonneg)

lemma rnd_not_NaN: "rnd x \<noteq> NaN"
  by (simp add: rnd_def Let_def)

lemma rnd_eq_Fin:
  "rnd x = Fin r \<longleftrightarrow> r = rnd_real x \<and> \<bar>rnd_real x\<bar> < 2 ^ 1024"
  by (auto simp: rnd_def Let_def)

lemma rnd_exact:
  assumes "rnd_real x = x" "\<bar>x\<bar> < 2 ^ 1024"
  shows "rnd x = Fin x"
  using assms by (simp add: rnd_eq_Fin)

lemma rnd_of_nat:
  assumes "k \<le> 2 ^ 53"
  shows "rnd (real k) = Fin (real k)"
proof -
  have "real k \<le> real (2 ^ 53)" using assms by (rule of_nat_mono)
  then have "\<bar>real k\<bar> < 2 ^ 1024" by simp
  then show ?thesis using rnd_real_of_nat[OF assms] by (simp add: rnd_exact)
qed

lemma rnd_numeral:
  assumes "(numeral k :: nat) \<le> 2 ^ 53"
  shows "rnd (numeral k) = Fin (numeral k)"
  using rnd_of_nat[OF assms] by simp

lemma rnd_1: "rnd 1 = Fin 1"
  using rnd_of_nat[of 1] by simp

lemma rnd_half: "rnd (1 / 2) = Fin (1 / 2)"
proof -
  have "rnd_real (of_int 1 * 2 ^ 1073 / 2 ^ 1074) = of_int 1 * 2 ^ 1073 / 2 ^ 1074"
    by (rule rnd_real_dyadic) simp
  then have "rnd_real (1 / 2) = 1 / 2" by simp
  then show ?thesis by (simp add: rnd_exact)
qed

lemmas rnd_simps = rnd_0 rnd_1 rnd_numeral rnd_neg rnd_half

lemma rnd_cases_pos:
  assumes "0 < rnd_real x"
  shows "rnd x = PInf \<or> (\<exists>d. 0 < d \<and> rnd x = Fin d)"
proof -
  have "0 < x"
  proof (rule ccontr)
    assume "\<not> 0 < x"
    then have "0 \<le> rnd_real (- x)" by (intro rnd_real_nonneg) simp
    then show False using assms by (simp add: rnd_real_neg)
  qed
  then show ?thesis using assms by (auto simp: rnd_def Let_def)
qed

lemma rnd_cases_nonneg:
  assumes "0 \<le> x"
  shows "rnd x = PInf \<or> (\<exists>d. 0 \<le> d \<and> rnd x = Fin d)"
proof (cases "x = 0")
  case True
  then show ?thesis by (simp add: rnd_0)
next
  case False
  with assms have "0 < x" by simp
  moreover have "0 \<le> rnd_real x" using assms by (rule rnd_real_nonneg)
  ultimately show ?thesis by (auto simp: rnd_def Let_def)
qed

lemma rnd_count_pos:
  assumes "0 < n"
  shows "rnd (real n) = PInf \<or> (\<exists>d. 0 < d \<and> rnd (real n) = Fin d)"
proof -
  have "rnd_real 1 \<le> rnd_real (real n)" using assms by (intro rnd_real_mono) simp
  moreover have "rnd_real 1 = 1" using rnd_real_of_nat[of 1] by simp
  ultimately show ?thesis by (intro rnd_cases_pos) simp
qed

lemma fdiv_zero_count:
  assumes "0 < n"
  shows "fdiv (Fin 0) (rnd (real n)) = Fin 0"
  using rnd_count_pos[OF assms] by (auto simp: rnd_0)


lemma rnd_real_eval:
  assumes "2 ^ (52 + s) \<le> x * 2 ^ 1074" "x * 2 ^ 1074 < 2 ^ (53 + s)"
  shows "rnd_real x = of_int (round_half_even (x * 2 ^ 1074 / 2 ^ s)) * 2 ^ s / 2 ^ 1074"
proof -
  have "(0::real) < 2 ^ (52 + s)" by simp
  with assms(1) have "0 < x * 2 ^ 1074" by linarith
  then have x: "0 < x" by (simp add: zero_less_mult_iff)
  have q: "quantum_exp (x * 2 ^ 1074) = s" using assms by (rule quantum_exp_eq)
  from x have x0: "0 \<le> x" by simp
  show ?thesis unfolding rnd_real_pos_eq[OF x0] round_units_def q ..
qed

lemma rnd_real_eval_big:
  assumes "2 ^ (52 + j) \<le> x" "x < 2 ^ (53 + j)"
  shows "rnd_real x = of_int (round_half_even (x / 2 ^ j)) * 2 ^ j"
proof -
  have "rnd_real x = of_int (round_half_even (x * 2 ^ 1074 / 2 ^ (1074 + j))) * 2 ^ (1074 + j) / 2 ^ 1074"
    using assms by (intro rnd_real_eval) (simp_all add: power_add)
  then show ?thesis by (simp add: power_add)
qed

lemma rnd_real_eval_small:
  assumes "2 ^ 52 \<le> x * 2 ^ j" "x * 2 ^ j < 2 ^ 53" "j \<le> 1074"
  shows "rnd_real x = of_int (round_half_even (x * 2 ^ j)) / 2 ^ j"
proof -
  define J :: real where "J = 2 ^ j"
  define K :: real where "K = 2 ^ (1074 - j)"
  have pos: "0 < J" "0 < K" by (simp_all add: J_def K_def)
  have p: "(2::real) ^ 1074 = J * K"
    unfolding J_def K_def using assms(3) by (simp flip: power_add)
  have lo: "2 ^ (52 + (1074 - j)) \<le> x * 2 ^ 1074"
  proof -
    have "2 ^ 52 * K \<le> x * J * K"
      using assms(1) pos unfolding J_def[symmetric] by (intro mult_right_mono) simp_all
    then show ?thesis unfolding p power_add K_def[symmetric] by (simp only: mult.assoc)
  qed
  have up: "x * 2 ^ 1074 < 2 ^ (53 + (1074 - j))"
  proof -
    have "x * J * K < 2 ^ 53 * K"
      using assms(2) pos unfolding J_def[symmetric] by (intro mult_strict_right_mono) simp_all
    then show ?thesis unfolding p power_add K_def[symmetric] by (simp only: mult.assoc)
  qed
  have "rnd_real x
      = of_int (round_half_even (x * 2 ^ 1074 / 2 ^ (1074 - j))) * 2 ^ (1074 - j) / 2 ^ 1074"
    using lo up by (rule rnd_real_eval)
  also have "\<dots> = of_int (round_half_even (x * (J * K) / K)) * K / (J * K)"
    unfolding p K_def ..
  also have "\<dots> = of_int (round_half_even (x * J)) / J"
    using pos by simp
  finally show ?thesis unfolding J_def .
qed

lemma rnd_real_tie: "rnd_real (2 ^ 53 + 1) = 2 ^ 53"
proof -
  have "rnd_real (2 ^ 53 + 1) = of_int (round_half_even ((2 ^ 53 + 1) / 2 ^ 1)) * 2 ^ 1"
    by (rule rnd_real_eval_big) simp_all
  then show ?thesis by (simp add: round_half_even_def)
qed

lemma rnd_in_range:
  assumes "lo \<le> x" "x \<le> hi" "rnd_real lo = lo" "rnd_real hi = hi"
    and "- (2 ^ 1024) < lo" "hi < 2 ^ 1024"
  shows "in_range lo hi (rnd x)"
proof -
  have "rnd_real lo \<le> rnd_real x" "rnd_real x \<le> rnd_real hi"
    using assms(1,2) by (auto intro: rnd_real_mono)
  then have b: "lo \<le> rnd_real x" "rnd_real x \<le> hi" using assms(3,4) by simp_all
  then have "\<bar>rnd_real x\<bar> < 2 ^ 1024" using assms(5,6) by linarith
  then have "rnd x = Fin (rnd_real x)" by (simp add: rnd_eq_Fin)
  then show ?thesis using b by (simp add: in_range_def)
qed

lemma rnd_real_1: "rnd_real 1 = 1"
  using rnd_real_of_nat[of 1] by simp

lemma rnd_real_2: "rnd_real 2 = 2"
  using rnd_real_of_nat[of 2] by simp

lemma rnd_unit:
  assumes "0 \<le> q" "q \<le> 1"
  shows "in_range 0 1 (rnd q)"
  using assms by (intro rnd_in_range) (simp_all add: rnd_real_0 rnd_real_1)

lemma in_range_Fin: "in_range lo hi v \<longleftrightarrow> (\<exists>r. v = Fin r \<and> lo \<le> r \<and> r \<le> hi)"
  by (cases v) (simp_all add: in_range_def)

lemma max_float64_dyadic: "max_float64 = of_int (2 ^ 53 - 1) * 2 ^ 2045 / 2 ^ 1074"
proof -
  have "(2::real) ^ 2045 = 2 ^ 971 * 2 ^ 1074" by (simp flip: power_add)
  then show ?thesis by (simp add: max_float64_def)
qed

lemma max_float64_bounds: "0 < max_float64" "max_float64 < 2 ^ 1024" "2 ^ 1023 \<le> max_float64"
proof -
  have e: "(2::real) ^ 1024 = 2 ^ 53 * 2 ^ 971" "(2::real) ^ 1023 = 2 ^ 52 * 2 ^ 971"
    by (simp_all flip: power_add)
  show "0 < max_float64" by (simp add: max_float64_def)
  show "max_float64 < 2 ^ 1024" unfolding e max_float64_def
    by (intro mult_strict_right_mono) simp_all
  show "2 ^ 1023 \<le> max_float64" unfolding e max_float64_def
    by (intro mult_right_mono) simp_all
qed

lemma rnd_real_max_float64: "rnd_real max_float64 = max_float64"
  unfolding max_float64_dyadic by (rule rnd_real_dyadic) simp

lemma rnd_max_float64: "rnd max_float64 = Fin max_float64"
  using max_float64_bounds by (intro rnd_exact rnd_real_max_float64) simp

lemma abs_max_float64: "\<bar>max_float64\<bar> = max_float64"
  using max_float64_bounds(1) by simp

lemma rnd_max_float64_plus: "rnd (max_float64 + max_float64) = PInf"
proof -
  have "(2::real) ^ 2046 = 2 * 2 ^ 2045" by simp
  then have d: "max_float64 + max_float64 = of_int (2 ^ 53 - 1) * 2 ^ 2046 / 2 ^ 1074"
    unfolding max_float64_dyadic by (simp only: of_int_diff) simp
  have "rnd_real (max_float64 + max_float64) = max_float64 + max_float64"
    unfolding d by (rule rnd_real_dyadic) simp
  moreover have "2 ^ 1024 \<le> max_float64 + max_float64"
    using max_float64_bounds(3) by simp
  moreover have "0 < max_float64 + max_float64" using max_float64_bounds(1) by simp
  ultimately show ?thesis by (simp add: rnd_def)
qed

lemma rnd_twice_max_float64: "rnd (2 * max_float64) = PInf"
  using rnd_max_float64_plus by simp

lemma rnd_le_max_float64:
  assumes "\<bar>x\<bar> \<le> max_float64"
  shows "is_finite (rnd x)"
proof -
  have "rnd_real \<bar>x\<bar> \<le> rnd_real max_float64" using assms by (rule rnd_real_mono)
  then have "\<bar>rnd_real x\<bar> < 2 ^ 1024"
    using max_float64_bounds(2) by (simp add: rnd_real_abs rnd_real_max_float64)
  then have "rnd x = Fin (rnd_real x)" by (simp add: rnd_eq_Fin)
  then show ?thesis by (simp add: is_finite_def)
qed

lemma min_normal_units: "min_normal \<le> v \<longleftrightarrow> 2 ^ 52 \<le> v * 2 ^ 1074"
proof -
  have e: "(2::real) ^ 1074 = 2 ^ 52 * 2 ^ 1022" by (simp flip: power_add)
  have "min_normal \<le> v \<longleftrightarrow> 1 \<le> v * 2 ^ 1022"
    by (simp add: min_normal_def field_simps)
  also have "\<dots> \<longleftrightarrow> 2 ^ 52 * 1 \<le> 2 ^ 52 * (v * 2 ^ 1022)"
    by (simp only: mult_le_cancel_left_pos zero_less_power zero_less_numeral)
  also have "\<dots> \<longleftrightarrow> 2 ^ 52 \<le> v * 2 ^ 1074" unfolding e by (simp only: mult_ac mult_1_right mult_1)
  finally show ?thesis .
qed

lemma round_units_scale:
  assumes "2 ^ 52 \<le> t"
  shows "round_units (2 ^ k * t) = 2 ^ k * round_units t"
proof -
  define s where "s = quantum_exp t"
  have t0: "0 \<le> t" using assms by (meson order_trans zero_le_numeral zero_le_power)
  have up: "t < 2 ^ (53 + s)" unfolding s_def using t0 by (rule quantum_exp_upper)
  have lo: "2 ^ (52 + s) \<le> t"
  proof (cases "s = 0")
    case True
    then show ?thesis using assms by simp
  next
    case False
    then show ?thesis unfolding s_def by (intro quantum_exp_lower) simp
  qed
  have "2 ^ k * 2 ^ (52 + s) \<le> 2 ^ k * t" using lo by simp
  then have lo': "2 ^ (52 + (s + k)) \<le> 2 ^ k * t" by (simp add: power_add mult_ac)
  have "2 ^ k * t < 2 ^ k * 2 ^ (53 + s)" using up by simp
  then have up': "2 ^ k * t < 2 ^ (53 + (s + k))" by (simp add: power_add mult_ac)
  have q: "quantum_exp (2 ^ k * t) = s + k" using lo' up' by (rule quantum_exp_eq)
  have "2 ^ k * t / 2 ^ (s + k) = t / 2 ^ s" by (simp add: power_add)
  then show ?thesis unfolding round_units_def q s_def[symmetric] by (simp add: power_add)
qed

lemma rnd_real_scale_up:
  assumes "min_normal \<le> \<bar>x\<bar>"
  shows "rnd_real (2 ^ k * x) = 2 ^ k * rnd_real x"
proof -
  have n: "2 ^ 52 \<le> \<bar>x\<bar> * 2 ^ 1074" using assms by (simp only: min_normal_units)
  have a: "\<bar>2 ^ k * x\<bar> * 2 ^ 1074 = 2 ^ k * (\<bar>x\<bar> * 2 ^ 1074)"
    by (simp add: abs_mult)
  have s: "sgn (2 ^ k * x) = sgn x" by (simp add: sgn_mult)
  show ?thesis unfolding rnd_real_def a s round_units_scale[OF n]
    by (simp only: mult_ac times_divide_eq_right)
qed

lemma rnd_real_scale_down:
  assumes "min_normal \<le> \<bar>x / 2 ^ k\<bar>"
  shows "rnd_real (x / 2 ^ k) = rnd_real x / 2 ^ k"
proof -
  have "rnd_real (2 ^ k * (x / 2 ^ k)) = 2 ^ k * rnd_real (x / 2 ^ k)"
    using assms by (rule rnd_real_scale_up)
  then have "rnd_real x = 2 ^ k * rnd_real (x / 2 ^ k)" by simp
  then show ?thesis by simp
qed

lemma rnd_real_scale:
  assumes "c = 2 ^ k \<or> c = 1 / 2 ^ k" "scales_exactly c v"
  shows "rnd_real (c * v) = c * rnd_real v"
proof (cases "v = 0")
  case True
  then show ?thesis by (simp add: rnd_real_0)
next
  case False
  then have n: "min_normal \<le> \<bar>v\<bar>" "min_normal \<le> \<bar>c * v\<bar>"
    using assms(2) by (simp_all add: scales_exactly_def)
  from assms(1) show ?thesis
  proof
    assume "c = 2 ^ k"
    then show ?thesis using rnd_real_scale_up[OF n(1), of k] by simp
  next
    assume c: "c = 1 / 2 ^ k"
    then have "min_normal \<le> \<bar>v / 2 ^ k\<bar>" using n(2) by simp
    then show ?thesis using rnd_real_scale_down[of v k] c by simp
  qed
qed

lemma rnd_scale:
  assumes "c = 2 ^ k \<or> c = 1 / 2 ^ k" "scales_exactly c v"
  shows "rnd v = Fin (rnd_real v) \<and> rnd (c * v) = Fin (c * rnd_real v)"
proof (cases "v = 0")
  case True
  then show ?thesis by (simp add: rnd_0 rnd_real_0)
next
  case False
  then have "\<bar>v\<bar> \<le> max_float64" "\<bar>c * v\<bar> \<le> max_float64"
    using assms(2) by (simp_all add: scales_exactly_def)
  then have "is_finite (rnd v)" "is_finite (rnd (c * v))"
    by (auto intro: rnd_le_max_float64)
  then have "rnd v = Fin (rnd_real v)" "rnd (c * v) = Fin (rnd_real (c * v))"
    by (auto simp: is_finite_def rnd_eq_Fin split: float64.splits)
  then show ?thesis using rnd_real_scale[OF assms] by simp
qed

lemma rnd_eval_small:
  assumes "2 ^ 52 \<le> x * 2 ^ j" "x * 2 ^ j < 2 ^ 53" "j \<le> 1074"
    and "y = of_int (round_half_even (x * 2 ^ j)) / 2 ^ j"
  shows "rnd x = Fin y"
proof -
  have y: "rnd_real x = y" unfolding assms(4) using assms(1-3) by (rule rnd_real_eval_small)
  have "(0::real) < 2 ^ 52" by simp
  with assms(1) have "0 < x * 2 ^ j" by linarith
  then have x0: "0 < x" by (simp add: zero_less_mult_iff)
  have "x * 1 \<le> x * 2 ^ j" using x0 by (intro mult_left_mono) simp_all
  with assms(2) have "x \<le> 2 ^ 53" by simp
  then have "rnd_real x \<le> rnd_real (real (2 ^ 53))" by (intro rnd_real_mono) simp
  also have "rnd_real (real (2 ^ 53)) = real (2 ^ 53)" by (rule rnd_real_of_nat) simp
  finally have "rnd_real x \<le> 2 ^ 53" by simp
  moreover have "0 \<le> rnd_real x" using x0 by (intro rnd_real_nonneg) simp
  ultimately have "\<bar>rnd_real x\<bar> < 2 ^ 1024" by simp
  then show ?thesis using y by (simp add: rnd_eq_Fin)
qed


section \<open>Properties of the library calls\<close>

lemma index_max_Max: "xs \<noteq> [] \<Longrightarrow> index_max xs = Some (Max (set xs))"
  by (cases xs) (simp_all flip: Max.set_eq_fold)

lemma index_min_Min: "xs \<noteq> [] \<Longrightarrow> index_min xs = Some (Min (set xs))"
  by (cases xs) (simp_all flip: Min.set_eq_fold)

lemma np_mean_Nil: "np_mean [] = NaN"
  by (simp add: np_mean_def np_sum_def rnd_0)

lemma fdiv_NaN_right: "fdiv x NaN = NaN"
  by (cases x) simp_all

lemma slices_short:
  assumes "int (length a) \<le> sp"
  shows "slice_from a sp = []" "slice_to a (- sp) = []"
  using assms by (auto simp: slice_from_def slice_to_def slice_bound_def)

lemma foldl_fadd_zeros:
  assumes "\<forall>v\<in>set xs. v = Fin 0"
  shows "foldl fadd (Fin 0) xs = Fin 0"
  using assms by (induction xs) (simp_all add: rnd_0)

lemma series_mean_all_NaN:
  assumes "\<forall>v\<in>set (values s). v = NaN"
  shows "series_mean s = NaN"
proof -
  have "filter (\<lambda>v. v \<noteq> NaN) (values s) = []" using assms by (simp add: filter_empty_conv)
  then show ?thesis by (simp add: series_mean_def)
qed

lemma series_mean_zeros:
  assumes "\<forall>v\<in>set (values s). v = Fin 0 \<or> v = NaN" and "Fin 0 \<in> set (values s)"
  shows "series_mean s = Fin 0"
proof -
  have "filter (\<lambda>v. v \<noteq> NaN) (values s) \<noteq> []"
    using assms(2) by (auto simp: filter_empty_conv)
  then have count: "0 < length (filter (\<lambda>v. v \<noteq> NaN) (values s))" by simp
  have "\<forall>v\<in>set (map (\<lambda>v. if v = NaN then Fin 0 else v) (values s)). v = Fin 0"
    using assms(1) by auto
  then have "np_sum (map (\<lambda>v. if v = NaN then Fin 0 else v) (values s)) = Fin 0"
    unfolding np_sum_def by (rule foldl_fadd_zeros)
  then show ?thesis using count fdiv_zero_count[OF count] by (simp add: series_mean_def)
qed

lemma smape_ratios_list:
  "map2 fdiv (map fabs (map2 fsub xs ys)) (map2 fadd (map fabs xs) (map fabs ys))
   = map2 (\<lambda>x y. fdiv (fabs (fsub x y)) (fadd (fabs x) (fabs y))) xs ys"
  by (induction xs ys rule: list_induct2') simp_all

lemma smape_ratios:
  "values (series_div (series_abs (series_sub a b)) (series_add (series_abs a) (series_abs b)))
   = map2 (\<lambda>x y. fdiv (fabs (fsub x y)) (fadd (fabs x) (fabs y))) (values a) (values b)"
  by (simp only: series_div_def series_abs_def series_sub_def series_add_def series.simps
      smape_ratios_list)

lemma ratio_zero_zero: "fdiv (fabs (fsub (Fin 0) (Fin 0))) (fadd (fabs (Fin 0)) (fabs (Fin 0))) = NaN"
  by (simp add: fsub_def rnd_0)

lemma ratio_same:
  assumes "is_float64 v"
  shows "fdiv (fabs (fsub v v)) (fadd (fabs v) (fabs v))
         = (if is_finite v \<and> v \<noteq> Fin 0 then Fin 0 else NaN)"
proof (cases v)
  case (Fin x)
  show ?thesis
  proof (cases "x = 0")
    case True
    then show ?thesis using Fin by (simp add: fsub_def rnd_0 is_finite_def)
  next
    case False
    have rx: "rnd_real x = x" using assms Fin by (simp add: is_float64_def rnd_eq_Fin)
    have "rnd_real \<bar>x\<bar> \<le> rnd_real (\<bar>x\<bar> + \<bar>x\<bar>)" by (intro rnd_real_mono) simp
    then have "0 < rnd_real (\<bar>x\<bar> + \<bar>x\<bar>)" using False rx by (simp flip: rnd_real_abs)
    then have "rnd (\<bar>x\<bar> + \<bar>x\<bar>) = PInf \<or> (\<exists>d. 0 < d \<and> rnd (\<bar>x\<bar> + \<bar>x\<bar>) = Fin d)"
      by (rule rnd_cases_pos)
    then show ?thesis using Fin False by (auto simp: fsub_def rnd_0 is_finite_def)
  qed
qed (simp_all add: fsub_def is_finite_def)

lemma series_mean_no_NaN:
  assumes "NaN \<notin> set (values s)"
  shows "series_mean s = np_mean (values s)"
proof -
  have f: "filter (\<lambda>v. v \<noteq> NaN) (values s) = values s"
    using assms by (auto simp: filter_id_conv)
  have m: "map (\<lambda>v. if v = NaN then Fin 0 else v) (values s) = values s"
    by (rule map_idI) (use assms in auto)
  show ?thesis
    by (cases "values s = []") (simp_all add: series_mean_def f m np_mean_def np_sum_def rnd_0)
qed

lemma smape_score_ok:
  assumes "index y_true = index y_pred"
  shows "smape_score y_true y_pred
         = Inr (fmul (Fin (- 2)) (series_mean (series_div (series_abs (series_sub y_true y_pred))
                 (series_add (series_abs y_true) (series_abs y_pred)))))"
  using assms by (simp add: smape_score_def check_consistent_time_indices_def)

lemma naive_slices:
  assumes "1 \<le> sp" "sp \<le> int (length a)"
  shows "slice_from a sp = drop (nat sp) a" "slice_to a (- sp) = take (length a - nat sp) a"
  using assms by (auto simp: slice_from_def slice_to_def slice_bound_def nat_diff_distrib)

lemma naive_errors:
  assumes "sp \<le> length a"
  shows "map fabs (map2 fsub (drop sp a) (take (length a - sp) a))
         = map (\<lambda>i. fabs (fsub (a ! i) (a ! (i - sp)))) [sp..<length a]"
  using assms by (auto simp: list_eq_iff_nth_eq add.commute)

lemma mae_pred_values:
  "values (series_abs (series_sub a b)) = map2 (\<lambda>t p. fabs (fsub t p)) (values a) (values b)"
  by (auto simp: series_abs_def series_sub_def)

lemma fsub_finite_not_NaN:
  assumes "is_finite t" "is_finite p"
  shows "fabs (fsub t p) \<noteq> NaN"
proof -
  obtain x y where "t = Fin x" "p = Fin y"
    using assms by (auto simp: is_finite_def split: float64.splits)
  then show ?thesis using rnd_not_NaN[of "x + - y"]
    by (cases "rnd (x + - y)") (simp_all add: fsub_def)
qed

lemma mase_score_ok:
  assumes "index y_true = index y_pred"
    and "sorted (index y_train)" and "sorted (index y_pred)"
    and "\<not> ge_opt (index_max (index y_train)) (index_min (index y_pred))"
    and "ndarray_sub (slice_from (values y_train) sp) (slice_to (values y_train) (- sp)) = Inr d"
  shows "mase_score y_true y_pred y_train sp
         = Inr (fdiv (fneg (series_mean (series_abs (series_sub y_true y_pred))))
                  (np_mean (map fabs d)))"
  using assms
  by (simp add: mase_score_def check_consistent_time_indices_def validate_obs_horizon_def
      np_asarray_def)


lemma ratio_unit:
  assumes "rnd x = Fin x" "rnd y = Fin y" "\<not> (x = 0 \<and> y = 0)"
    and "is_finite (fsub (Fin x) (Fin y))"
  shows "in_range 0 1 (fdiv (fabs (fsub (Fin x) (Fin y))) (fadd (fabs (Fin x)) (fabs (Fin y))))"
proof -
  have rx: "rnd_real x = x" and ry: "rnd_real y = y"
    using assms(1,2) by (simp_all add: rnd_eq_Fin)
  obtain d where d: "rnd (x + - y) = Fin d"
    using assms(4) by (auto simp: fsub_def is_finite_def split: float64.splits)
  then have dd: "d = rnd_real (x - y)" by (simp add: rnd_eq_Fin)
  then have ad: "\<bar>d\<bar> = rnd_real \<bar>x - y\<bar>" by (simp add: rnd_real_abs)
  have le: "\<bar>d\<bar> \<le> rnd_real (\<bar>x\<bar> + \<bar>y\<bar>)" unfolding ad by (intro rnd_real_mono) simp
  have "rnd_real \<bar>x\<bar> \<le> rnd_real (\<bar>x\<bar> + \<bar>y\<bar>)" "rnd_real \<bar>y\<bar> \<le> rnd_real (\<bar>x\<bar> + \<bar>y\<bar>)"
    by (auto intro: rnd_real_mono)
  then have "\<bar>x\<bar> \<le> rnd_real (\<bar>x\<bar> + \<bar>y\<bar>)" "\<bar>y\<bar> \<le> rnd_real (\<bar>x\<bar> + \<bar>y\<bar>)"
    using rx ry by (simp_all flip: rnd_real_abs)
  then have pos: "0 < rnd_real (\<bar>x\<bar> + \<bar>y\<bar>)" using assms(3) by auto
  from rnd_cases_pos[OF pos] show ?thesis
  proof
    assume "rnd (\<bar>x\<bar> + \<bar>y\<bar>) = PInf"
    then show ?thesis using d by (simp add: fsub_def in_range_def)
  next
    assume "\<exists>e. 0 < e \<and> rnd (\<bar>x\<bar> + \<bar>y\<bar>) = Fin e"
    then obtain e where e: "0 < e" "rnd (\<bar>x\<bar> + \<bar>y\<bar>) = Fin e" by blast
    then have "e = rnd_real (\<bar>x\<bar> + \<bar>y\<bar>)" by (simp add: rnd_eq_Fin)
    with le have "\<bar>d\<bar> \<le> e" by simp
    then have "0 \<le> \<bar>d\<bar> / e" "\<bar>d\<bar> / e \<le> 1" using e(1) by simp_all
    then have "in_range 0 1 (rnd (\<bar>d\<bar> / e))" by (rule rnd_unit)
    then show ?thesis using d e by (simp add: fsub_def)
  qed
qed

lemma sum_step:
  assumes "in_range 0 (min (real k) (2 ^ 53)) acc" "in_range 0 1 v"
  shows "in_range 0 (min (real (Suc k)) (2 ^ 53)) (fadd acc v)"
proof -
  obtain s q where acc: "acc = Fin s" "0 \<le> s" "s \<le> min (real k) (2 ^ 53)"
    and v: "v = Fin q" "0 \<le> q" "q \<le> 1"
    using assms by (auto simp: in_range_Fin)
  show ?thesis
  proof (cases "Suc k \<le> 2 ^ 53")
    case True
    then have "real (Suc k) \<le> real (2 ^ 53)" by (rule of_nat_mono)
    then have m: "min (real (Suc k)) (2 ^ 53) = real (Suc k)" by simp
    have "in_range 0 (real (Suc k)) (rnd (s + q))"
    proof (rule rnd_in_range)
      show "s + q \<le> real (Suc k)" using acc(3) v(3) by simp
      show "rnd_real (real (Suc k)) = real (Suc k)" using True by (rule rnd_real_of_nat)
      show "real (Suc k) < 2 ^ 1024" using \<open>real (Suc k) \<le> real (2 ^ 53)\<close> by simp
    qed (use acc v in \<open>simp_all add: rnd_real_0\<close>)
    then show ?thesis unfolding m by (simp add: acc v)
  next
    case False
    then have "2 ^ 53 \<le> k" by simp
    then have "real (2 ^ 53) \<le> real k" by (rule of_nat_mono)
    then have m: "min (real (Suc k)) (2 ^ 53) = 2 ^ 53" "min (real k) (2 ^ 53) = 2 ^ 53"
      by simp_all
    have "in_range 0 (2 ^ 53) (rnd (s + q))"
    proof -
      have "rnd_real 0 \<le> rnd_real (s + q)" "rnd_real (s + q) \<le> rnd_real (2 ^ 53 + 1)"
        using acc(2,3) v(2,3) unfolding m by (auto intro!: rnd_real_mono)
      then have b: "0 \<le> rnd_real (s + q)" "rnd_real (s + q) \<le> 2 ^ 53"
        unfolding rnd_real_0 rnd_real_tie .
      then have "\<bar>rnd_real (s + q)\<bar> < 2 ^ 1024" by simp
      then have "rnd (s + q) = Fin (rnd_real (s + q))" by (simp add: rnd_eq_Fin)
      then show ?thesis using b by (simp add: in_range_def)
    qed
    then show ?thesis unfolding m by (simp add: acc v)
  qed
qed

lemma foldl_fadd_units:
  assumes "\<forall>v\<in>set xs. in_range 0 1 v" "in_range 0 (min (real k) (2 ^ 53)) acc"
  shows "in_range 0 (min (real (k + length xs)) (2 ^ 53)) (foldl fadd acc xs)"
  using assms
proof (induction xs arbitrary: k acc)
  case Nil
  then show ?case by simp
next
  case (Cons v xs)
  have "in_range 0 (min (real (Suc k)) (2 ^ 53)) (fadd acc v)"
    using Cons.prems by (intro sum_step) simp_all
  with Cons.IH[of "Suc k" "fadd acc v"] Cons.prems(1) show ?case by simp
qed

lemma series_mean_units:
  assumes "values s \<noteq> []" "\<forall>v\<in>set (values s). in_range 0 1 v"
  shows "in_range 0 1 (series_mean s)"
proof -
  let ?n = "length (values s)"
  have noNaN: "NaN \<notin> set (values s)" using assms(2) by (auto simp: in_range_def)
  have mean: "series_mean s = fdiv (np_sum (values s)) (rnd (real ?n))"
    unfolding series_mean_no_NaN[OF noNaN] np_mean_def ..
  have "in_range 0 (min (real (0 + ?n)) (2 ^ 53)) (foldl fadd (Fin 0) (values s))"
    using assms(2) by (intro foldl_fadd_units) (simp_all add: in_range_def)
  then obtain S where S: "np_sum (values s) = Fin S" "0 \<le> S" "S \<le> min (real ?n) (2 ^ 53)"
    by (auto simp: in_range_Fin np_sum_def)
  have npos: "0 < ?n" using assms(1) by simp
  from rnd_count_pos[OF npos] show ?thesis
  proof
    assume "rnd (real ?n) = PInf"
    then show ?thesis by (simp add: mean S in_range_def)
  next
    assume "\<exists>d. 0 < d \<and> rnd (real ?n) = Fin d"
    then obtain d where d: "0 < d" "rnd (real ?n) = Fin d" by blast
    then have dd: "d = rnd_real (real ?n)" by (simp add: rnd_eq_Fin)
    have "S \<le> d"
    proof (cases "?n \<le> 2 ^ 53")
      case True
      then show ?thesis using S(3) unfolding dd by (simp add: rnd_real_of_nat)
    next
      case False
      then have "2 ^ 53 \<le> ?n" by simp
      then have "real (2 ^ 53) \<le> real ?n" by (rule of_nat_mono)
      then have "rnd_real (real (2 ^ 53)) \<le> rnd_real (real ?n)" by (rule rnd_real_mono)
      moreover have "rnd_real (real (2 ^ 53)) = real (2 ^ 53)" by (rule rnd_real_of_nat) simp
      ultimately show ?thesis using S(3) unfolding dd by simp
    qed
    then have "0 \<le> S / d" "S / d \<le> 1" using d(1) S(2) by simp_all
    then have "in_range 0 1 (rnd (S / d))" by (rule rnd_unit)
    then show ?thesis using d by (simp add: mean S)
  qed
qed

lemma fmul_minus_two:
  assumes "in_range 0 1 m"
  shows "in_range (- 2) 0 (fmul (Fin (- 2)) m)"
proof -
  obtain q where q: "m = Fin q" "0 \<le> q" "q \<le> 1" using assms by (auto simp: in_range_Fin)
  have "in_range (- 2) 0 (rnd (- 2 * q))"
  proof (rule rnd_in_range)
    show "rnd_real (- 2) = - 2" by (simp add: rnd_real_neg rnd_real_2)
  qed (use q in \<open>simp_all add: rnd_real_0\<close>)
  then show ?thesis by (simp add: q)
qed

lemma finite_float64E:
  assumes "is_finite v" "is_float64 v"
  obtains x where "v = Fin x" "rnd x = Fin x"
  using assms by (cases v) (simp_all add: is_finite_def is_float64_def)

lemma fdiv_by_zero: "fdiv x (Fin 0) = PInf \<or> fdiv x (Fin 0) = NInf \<or> fdiv x (Fin 0) = NaN"
  by (cases x) simp_all

lemma ratio_scale:
  assumes c: "c = 2 ^ k \<or> c = 1 / 2 ^ k"
    and "rnd x = Fin x" "rnd y = Fin y" "point_scales c (Fin x) (Fin y)"
  shows "fdiv (fabs (fsub (fmul (Fin c) (Fin x)) (fmul (Fin c) (Fin y))))
           (fadd (fabs (fmul (Fin c) (Fin x))) (fabs (fmul (Fin c) (Fin y))))
         = fdiv (fabs (fsub (Fin x) (Fin y))) (fadd (fabs (Fin x)) (fabs (Fin y)))"
proof -
  have cpos: "0 < c" using c by auto
  have sc: "scales_exactly c x" "scales_exactly c y" "scales_exactly c (x - y)"
    "scales_exactly c (\<bar>x\<bar> + \<bar>y\<bar>)"
    using assms(4) by (simp_all add: point_scales_def)
  have rx: "rnd_real x = x" and ry: "rnd_real y = y"
    using assms(2,3) by (simp_all add: rnd_eq_Fin)
  have mx: "fmul (Fin c) (Fin x) = Fin (c * x)" using rnd_scale[OF c sc(1)] rx by simp
  have my: "fmul (Fin c) (Fin y) = Fin (c * y)" using rnd_scale[OF c sc(2)] ry by simp
  define d where "d = rnd_real (x - y)"
  define e where "e = rnd_real (\<bar>x\<bar> + \<bar>y\<bar>)"
  have e0: "0 \<le> e" unfolding e_def by (intro rnd_real_nonneg) simp
  have d1: "rnd (x - y) = Fin d" "rnd (c * (x - y)) = Fin (c * d)"
    using rnd_scale[OF c sc(3)] by (simp_all add: d_def)
  have e1: "rnd (\<bar>x\<bar> + \<bar>y\<bar>) = Fin e" "rnd (c * (\<bar>x\<bar> + \<bar>y\<bar>)) = Fin (c * e)"
    using rnd_scale[OF c sc(4)] by (simp_all add: e_def)
  have a1: "c * x + - (c * y) = c * (x - y)" by (simp add: algebra_simps)
  have a2: "\<bar>c * x\<bar> + \<bar>c * y\<bar> = c * (\<bar>x\<bar> + \<bar>y\<bar>)"
    using cpos by (simp add: abs_mult algebra_simps)
  have s1: "fsub (Fin (c * x)) (Fin (c * y)) = Fin (c * d)"
    unfolding fsub_def fneg.simps fadd.simps a1 by (rule d1(2))
  have s2: "fsub (Fin x) (Fin y) = Fin d"
    using d1(1) by (simp add: fsub_def)
  have s3: "fadd (Fin \<bar>c * x\<bar>) (Fin \<bar>c * y\<bar>) = Fin (c * e)"
    unfolding fadd.simps a2 by (rule e1(2))
  have s4: "fadd (Fin \<bar>x\<bar>) (Fin \<bar>y\<bar>) = Fin e"
    using e1(1) by simp
  have "fdiv (Fin \<bar>c * d\<bar>) (Fin (c * e)) = fdiv (Fin \<bar>d\<bar>) (Fin e)"
    using cpos by (simp add: abs_mult zero_less_mult_iff)
  then show ?thesis unfolding mx my s1 s2 fabs.simps s3 s4 .
qed

lemma smape_score_single:
  "smape_score \<lparr>index = ix, values = [t]\<rparr> \<lparr>index = ix, values = [p]\<rparr>
   = Inr (fmul (Fin (- 2))
       (series_mean \<lparr>index = ix, values = [fdiv (fabs (fsub t p)) (fadd (fabs t) (fabs p))]\<rparr>))"
  by (simp add: smape_score_def check_consistent_time_indices_def series_abs_def
      series_sub_def series_add_def series_div_def)

lemma scaled_by_tenth:
  assumes c: "c = 3602879701896397 / 2 ^ 55"
  shows "rnd c = Fin c"
    and "smape_score (series_scale (Fin c) \<lparr>index = [0], values = [Fin 1]\<rparr>)
           (series_scale (Fin c) \<lparr>index = [0], values = [Fin 3]\<rparr>)
         = Inr (Fin (- (4503599627370497 / 2 ^ 52)))"
proof -
  define c3 :: real where "c3 = 5404319552844596 / 2 ^ 54"
  define d :: real where "d = 7205759403792795 / 2 ^ 55"
  define e :: real where "e = 7205759403792794 / 2 ^ 54"
  define r :: real where "r = 4503599627370497 / 2 ^ 53"
  define w :: real where "w = 4503599627370497 / 2 ^ 52"
  show rc: "rnd c = Fin c"
    by (rule rnd_eval_small[where j = 56]) (simp_all add: c round_half_even_def)
  have m1: "fmul (Fin c) (Fin 1) = Fin c" using rc by simp
  have "rnd (c * 3) = Fin c3"
    by (rule rnd_eval_small[where j = 54]) (simp_all add: c c3_def round_half_even_def)
  then have m3: "fmul (Fin c) (Fin 3) = Fin c3" by simp
  have rd: "rnd d = Fin d"
    by (rule rnd_eval_small[where j = 55]) (simp_all add: d_def round_half_even_def)
  have "c + - c3 = - d" by (simp add: c c3_def d_def)
  then have "rnd (c + - c3) = Fin (- d)" using rd by (simp add: rnd_neg)
  then have sub: "fabs (fsub (Fin c) (Fin c3)) = Fin d"
    by (simp add: fsub_def d_def)
  have "rnd (\<bar>c\<bar> + \<bar>c3\<bar>) = Fin e"
    by (rule rnd_eval_small[where j = 54]) (simp_all add: c c3_def e_def round_half_even_def)
  then have add: "fadd (fabs (Fin c)) (fabs (Fin c3)) = Fin e" by simp
  have e0: "e \<noteq> 0" by (simp add: e_def)
  have "rnd (d / e) = Fin r"
    by (rule rnd_eval_small[where j = 53]) (simp_all add: d_def e_def r_def round_half_even_def)
  then have ratio: "fdiv (Fin d) (Fin e) = Fin r" using e0 by simp
  have rr: "rnd r = Fin r"
    by (rule rnd_eval_small[where j = 53]) (simp_all add: r_def round_half_even_def)
  have mean: "series_mean \<lparr>index = [0], values = [Fin r]\<rparr> = Fin r"
    using rr by (simp add: series_mean_def np_sum_def rnd_1)
  have "rnd w = Fin w"
    by (rule rnd_eval_small[where j = 52]) (simp_all add: w_def round_half_even_def)
  moreover have "- 2 * r = - w" by (simp add: r_def w_def)
  ultimately have final: "fmul (Fin (- 2)) (Fin r) = Fin (- w)"
    by (simp add: rnd_neg)
  have "smape_score (series_scale (Fin c) \<lparr>index = [0], values = [Fin 1]\<rparr>)
           (series_scale (Fin c) \<lparr>index = [0], values = [Fin 3]\<rparr>) = Inr (Fin (- w))"
    unfolding series_scale_def series.simps list.map m1 m3 smape_score_single sub add ratio
      mean final ..
  then show "smape_score (series_scale (Fin c) \<lparr>index = [0], values = [Fin 1]\<rparr>)
           (series_scale (Fin c) \<lparr>index = [0], values = [Fin 3]\<rparr>)
         = Inr (Fin (- (4503599627370497 / 2 ^ 52)))"
    unfolding w_def .
qed


section \<open>The claims\<close>

subsection \<open>The formula of MASE\<close>

text \<open>
  C1. Let \<open>sp\<close> be a seasonal periodicity (a positive integer), \<open>y_train\<close> have
  \<open>n_obs \<ge> sp + 1\<close> values, \<open>y_true\<close> and \<open>y_pred\<close> have the same index and finite
  values, and the validations and the temporal-ordering check pass. Then \<open>mase_score\<close>
  returns \<open>- mean |y_true - y_pred| / mean |y_train[sp:] - y_train[:-sp]|\<close>, and the
  array of naive errors has exactly \<open>n_obs - sp\<close> elements.
\<close>

theorem mase_formula:
  assumes "1 \<le> sp" and "sp + 1 \<le> int (length (values y_train))"
    and "index y_true = index y_pred"
    and "sorted (index y_train)" and "sorted (index y_pred)"
    and "\<not> ge_opt (index_max (index y_train)) (index_min (index y_pred))"
    and "\<forall>v\<in>set (values y_true) \<union> set (values y_pred). is_finite v"
  shows "mase_score y_true y_pred y_train sp
           = Inr (mase_spec (values y_true) (values y_pred) (values y_train) (nat sp))
       \<and> (\<exists>d. ndarray_sub (slice_from (np_asarray y_train) sp)
                  (slice_to (np_asarray y_train) (- sp)) = Inr d
              \<and> int (length d) = int (length (values y_train)) - sp)"
proof -
  let ?a = "values y_train"
  have sp: "nat sp \<le> length ?a" "sp \<le> int (length ?a)" using assms(1,2) by simp_all
  have sl: "slice_from ?a sp = drop (nat sp) ?a"
    "slice_to ?a (- sp) = take (length ?a - nat sp) ?a"
    using naive_slices[OF assms(1) sp(2)] by simp_all
  have sub: "ndarray_sub (slice_from ?a sp) (slice_to ?a (- sp))
      = Inr (map2 fsub (drop (nat sp) ?a) (take (length ?a - nat sp) ?a))"
    using sp by (simp add: ndarray_sub_def sl)
  have len: "int (length (map2 fsub (drop (nat sp) ?a) (take (length ?a - nat sp) ?a)))
      = int (length ?a) - sp"
    using sp assms(1) by simp
  have naive: "np_mean (map fabs (map2 fsub (drop (nat sp) ?a) (take (length ?a - nat sp) ?a)))
      = mae_naive_spec ?a (nat sp)"
    unfolding mae_naive_spec_def using naive_errors[OF sp(1)] by simp
  have "NaN \<notin> set (values (series_abs (series_sub y_true y_pred)))"
  proof
    assume "NaN \<in> set (values (series_abs (series_sub y_true y_pred)))"
    then obtain t p where tp: "(t, p) \<in> set (zip (values y_true) (values y_pred))"
      and nan: "NaN = fabs (fsub t p)"
      unfolding mae_pred_values by auto
    from tp have "t \<in> set (values y_true)" "p \<in> set (values y_pred)"
      by (auto dest: set_zip_leftD set_zip_rightD)
    then have "is_finite t" "is_finite p" using assms(7) by auto
    then show False using nan fsub_finite_not_NaN[of t p] by simp
  qed
  then have pred: "series_mean (series_abs (series_sub y_true y_pred))
      = mae_pred_spec (values y_true) (values y_pred)"
    by (simp add: series_mean_no_NaN mae_pred_values mae_pred_spec_def)
  have "mase_score y_true y_pred y_train sp
      = Inr (mase_spec (values y_true) (values y_pred) ?a (nat sp))"
    unfolding mase_score_ok[OF assms(3-6) sub] naive pred mase_spec_def ..
  then show ?thesis using sub len unfolding np_asarray_def by blast
qed

theorem mase_formula_witness:
  "mase_score \<lparr>index = [5, 6], values = [Fin 20, Fin 22]\<rparr>
     \<lparr>index = [5, 6], values = [Fin 21, Fin 21]\<rparr>
     \<lparr>index = [0, 1, 2, 3, 4], values = [Fin 10, Fin 12, Fin 14, Fin 16, Fin 18]\<rparr> 1
   = Inr (Fin (- (1 / 2)))"
  using mase_formula
    [of 1 "\<lparr>index = [0, 1, 2, 3, 4], values = [Fin 10, Fin 12, Fin 14, Fin 16, Fin 18]\<rparr>"
        "\<lparr>index = [5, 6], values = [Fin 20, Fin 22]\<rparr>"
        "\<lparr>index = [5, 6], values = [Fin 21, Fin 21]\<rparr>"]
  by (simp add: is_finite_def mase_spec_def mae_pred_spec_def mae_naive_spec_def np_mean_def
      np_sum_def fsub_def rnd_simps)

subsection \<open>The formula of SMAPE\<close>

text \<open>
  C2, as stated, fails: the mean that \<open>smape_score\<close> takes is that of a Series, which
  leaves out the points whose ratio is NaN. With one point equal and non-zero and one
  point zero in both series, the ratios are \<open>0\<close> and NaN; the code returns \<open>-2 * 0 = 0\<close>,
  the formula over all points gives NaN.
\<close>

theorem smape_formula_counterexample:
  "smape_score \<lparr>index = [0, 1], values = [Fin 10, Fin 0]\<rparr>
               \<lparr>index = [0, 1], values = [Fin 10, Fin 0]\<rparr> = Inr (Fin 0)
   \<and> smape_spec [Fin 10, Fin 0] [Fin 10, Fin 0] = NaN"
  by (simp add: smape_score_ok smape_ratios series_mean_def np_sum_def fsub_def rnd_simps
      smape_spec_def np_mean_def)


text \<open>
  C2, amended. For \<open>y_true\<close> and \<open>y_pred\<close> with the same index and no point whose ratio
  is NaN, \<open>smape_score\<close> returns \<open>-2\<close> times the mean over all points of
  \<open>|y_true_i - y_pred_i| / (|y_true_i| + |y_pred_i|)\<close>.
\<close>

theorem smape_formula:
  assumes "index y_true = index y_pred"
    and "\<forall>(t, p)\<in>set (zip (values y_true) (values y_pred)).
           fdiv (fabs (fsub t p)) (fadd (fabs t) (fabs p)) \<noteq> NaN"
  shows "smape_score y_true y_pred = Inr (smape_spec (values y_true) (values y_pred))"
proof -
  let ?r = "series_div (series_abs (series_sub y_true y_pred))
              (series_add (series_abs y_true) (series_abs y_pred))"
  have "NaN \<notin> set (values ?r)" using assms(2) unfolding smape_ratios by force
  then have "series_mean ?r = np_mean (values ?r)" by (rule series_mean_no_NaN)
  then show ?thesis
    by (simp add: smape_score_ok[OF assms(1)] smape_spec_def smape_ratios)
qed

theorem smape_formula_witness:
  "smape_score \<lparr>index = [0, 1], values = [Fin 10, Fin 0]\<rparr>
               \<lparr>index = [0, 1], values = [Fin 10, Fin 2]\<rparr> = Inr (Fin (- 1))"
  using smape_formula
    [of "\<lparr>index = [0, 1], values = [Fin 10, Fin 0]\<rparr>"
        "\<lparr>index = [0, 1], values = [Fin 10, Fin 2]\<rparr>"]
  by (simp add: smape_spec_def np_mean_def np_sum_def fsub_def rnd_simps)

subsection \<open>SMAPE of identical series\<close>

text \<open>
  C5, as stated, fails: for \<open>y_true = y_pred = [0]\<close> the only ratio is \<open>0/0\<close> and the
  result is NaN, not \<open>0.0\<close>.
\<close>

theorem smape_identical_counterexample:
  "smape_score \<lparr>index = [0], values = [Fin 0]\<rparr> \<lparr>index = [0], values = [Fin 0]\<rparr> = Inr NaN
   \<and> NaN \<noteq> Fin 0"
  by (simp add: smape_score_ok smape_ratios series_mean_def fsub_def rnd_0)


text \<open>
  C5, amended. For \<open>y_true\<close> equal to \<open>y_pred\<close> pointwise (binary64 values, the same
  index), \<open>smape_score\<close> returns exactly \<open>0.0\<close> if at least one value is finite and not
  zero; otherwise (an empty series, or every value zero, infinite or NaN) it returns NaN.
\<close>

theorem smape_identical:
  assumes "index y_true = index y_pred" and "values y_pred = values y_true"
    and "\<forall>v\<in>set (values y_true). is_float64 v"
  shows "smape_score y_true y_pred
         = Inr (if \<exists>v\<in>set (values y_true). is_finite v \<and> v \<noteq> Fin 0 then Fin 0 else NaN)"
proof -
  let ?r = "series_div (series_abs (series_sub y_true y_pred))
              (series_add (series_abs y_true) (series_abs y_pred))"
  have vals: "values ?r
      = map (\<lambda>v. if is_finite v \<and> v \<noteq> Fin 0 then Fin 0 else NaN) (values y_true)"
    using assms(3) unfolding smape_ratios assms(2)
    by (simp add: zip_same_conv_map ratio_same)
  show ?thesis
  proof (cases "\<exists>v\<in>set (values y_true). is_finite v \<and> v \<noteq> Fin 0")
    case True
    have "series_mean ?r = Fin 0"
      by (rule series_mean_zeros) (use True in \<open>auto simp: vals\<close>)
    then show ?thesis using True by (simp add: smape_score_ok[OF assms(1)] rnd_0)
  next
    case False
    have "series_mean ?r = NaN"
      by (rule series_mean_all_NaN) (use False in \<open>auto simp: vals\<close>)
    then show ?thesis using False by (simp add: smape_score_ok[OF assms(1)])
  qed
qed


theorem smape_identical_witness:
  "smape_score \<lparr>index = [0, 1], values = [Fin 10, Fin 0]\<rparr>
               \<lparr>index = [0, 1], values = [Fin 10, Fin 0]\<rparr> = Inr (Fin 0)
   \<and> smape_score \<lparr>index = [], values = []\<rparr> \<lparr>index = [], values = []\<rparr> = Inr NaN"
  using smape_identical
    [of "\<lparr>index = [0, 1], values = [Fin 10, Fin 0]\<rparr>"
        "\<lparr>index = [0, 1], values = [Fin 10, Fin 0]\<rparr>"]
    smape_identical [of "\<lparr>index = [], values = []\<rparr>" "\<lparr>index = [], values = []\<rparr>"]
  by (simp add: is_float64_def is_finite_def rnd_simps)

subsection \<open>SMAPE at points where both series are zero\<close>

text \<open>
  C6, as stated, fails in its general part: a point where both series are zero has the
  ratio NaN, and the mean of a Series skips it. With a second point \<open>(1, 3)\<close> the result
  is \<open>-2 * (2/4) = -1\<close>, not NaN.
\<close>

theorem smape_zero_point_counterexample:
  "smape_score \<lparr>index = [0, 1], values = [Fin 0, Fin 1]\<rparr>
               \<lparr>index = [0, 1], values = [Fin 0, Fin 3]\<rparr> = Inr (Fin (- 1))
   \<and> Fin (- 1) \<noteq> NaN"
  by (simp add: smape_score_ok smape_ratios series_mean_def np_sum_def fsub_def rnd_simps)


text \<open>
  C6, amended. For \<open>y_true = [0]\<close>, \<open>y_pred = [0]\<close>, and more generally whenever
  \<open>y_true\<close> and \<open>y_pred\<close> are zero at every point, every ratio is \<open>0/0\<close> and
  \<open>smape_score\<close> returns NaN; no error is raised.
\<close>

theorem smape_all_zero_nan:
  assumes "index y_true = index y_pred"
    and "\<forall>v\<in>set (values y_true). v = Fin 0" and "\<forall>v\<in>set (values y_pred). v = Fin 0"
  shows "smape_score y_true y_pred = Inr NaN"
proof -
  let ?r = "series_div (series_abs (series_sub y_true y_pred))
              (series_add (series_abs y_true) (series_abs y_pred))"
  have "series_mean ?r = NaN"
  proof (rule series_mean_all_NaN, rule ballI)
    fix v assume "v \<in> set (values ?r)"
    then obtain t p where "(t, p) \<in> set (zip (values y_true) (values y_pred))"
      and v: "v = fdiv (fabs (fsub t p)) (fadd (fabs t) (fabs p))"
      unfolding smape_ratios by auto
    then have "t = Fin 0" "p = Fin 0" using assms(2,3) by (auto dest: set_zip_leftD set_zip_rightD)
    then show "v = NaN" using v by (simp add: fsub_def rnd_0)
  qed
  then show ?thesis by (simp add: smape_score_ok[OF assms(1)])
qed


theorem smape_all_zero_nan_witness:
  "smape_score \<lparr>index = [0], values = [Fin 0]\<rparr> \<lparr>index = [0], values = [Fin 0]\<rparr> = Inr NaN"
  using smape_all_zero_nan
    [of "\<lparr>index = [0], values = [Fin 0]\<rparr>" "\<lparr>index = [0], values = [Fin 0]\<rparr>"]
  by simp

subsection \<open>The range of SMAPE\<close>

text \<open>
  C7, as stated, fails twice. For two empty series there is no ratio and the mean is NaN.
  And for finite values of opposite sign and large magnitude, here the largest binary64
  number and its negative, both \<open>|y_true - y_pred|\<close> and \<open>|y_true| + |y_pred|\<close> overflow
  to infinity, the ratio is NaN and so is the result.
\<close>

theorem smape_bounded_counterexample:
  "smape_score \<lparr>index = [], values = []\<rparr> \<lparr>index = [], values = []\<rparr> = Inr NaN
   \<and> is_float64 (Fin max_float64) \<and> is_float64 (Fin (- max_float64))
   \<and> smape_score \<lparr>index = [0], values = [Fin max_float64]\<rparr>
        \<lparr>index = [0], values = [Fin (- max_float64)]\<rparr> = Inr NaN
   \<and> \<not> in_range (- 2) 0 NaN"
  by (simp add: smape_score_ok smape_ratios series_mean_def fsub_def is_float64_def
      rnd_neg rnd_max_float64 rnd_twice_max_float64 abs_max_float64 in_range_def)


text \<open>
  C7, amended. For every pair of non-empty series of the same length and index, with
  finite binary64 values, in which no point has both values zero and no difference
  \<open>y_true_i - y_pred_i\<close> overflows, \<open>smape_score\<close> returns a value of the closed interval
  from \<open>-2.0\<close> to \<open>0.0\<close>.
\<close>

theorem smape_bounded:
  assumes "index y_true = index y_pred"
    and "length (values y_true) = length (values y_pred)" and "values y_true \<noteq> []"
    and "\<forall>v\<in>set (values y_true) \<union> set (values y_pred). is_finite v \<and> is_float64 v"
    and "\<forall>(t, p)\<in>set (zip (values y_true) (values y_pred)).
           \<not> (t = Fin 0 \<and> p = Fin 0) \<and> is_finite (fsub t p)"
  shows "\<exists>r. smape_score y_true y_pred = Inr r \<and> in_range (- 2) 0 r"
proof -
  let ?r = "series_div (series_abs (series_sub y_true y_pred))
              (series_add (series_abs y_true) (series_abs y_pred))"
  have "values ?r \<noteq> []" using assms(2,3) unfolding smape_ratios
    by (cases "values y_true"; cases "values y_pred") simp_all
  moreover have "\<forall>v\<in>set (values ?r). in_range 0 1 v"
  proof
    fix v assume "v \<in> set (values ?r)"
    then obtain t p where tp: "(t, p) \<in> set (zip (values y_true) (values y_pred))"
      and v: "v = fdiv (fabs (fsub t p)) (fadd (fabs t) (fabs p))"
      unfolding smape_ratios by auto
    from tp have "t \<in> set (values y_true)" "p \<in> set (values y_pred)"
      by (auto dest: set_zip_leftD set_zip_rightD)
    then have "is_finite t" "is_float64 t" "is_finite p" "is_float64 p"
      using assms(4) by auto
    then obtain x y where xy: "t = Fin x" "p = Fin y" "rnd x = Fin x" "rnd y = Fin y"
      by (elim finite_float64E) blast
    have "\<not> (x = 0 \<and> y = 0)" "is_finite (fsub (Fin x) (Fin y))"
      using assms(5) tp xy(1,2) by auto
    then show "in_range 0 1 v" unfolding v xy(1,2) using xy(3,4) by (intro ratio_unit)
  qed
  ultimately have "in_range 0 1 (series_mean ?r)" by (rule series_mean_units)
  then have "in_range (- 2) 0 (fmul (Fin (- 2)) (series_mean ?r))" by (rule fmul_minus_two)
  then show ?thesis unfolding smape_score_ok[OF assms(1)] by blast
qed

theorem smape_bounded_witness:
  "\<exists>r. smape_score \<lparr>index = [0, 1], values = [Fin 10, Fin 0]\<rparr>
         \<lparr>index = [0, 1], values = [Fin 10, Fin 2]\<rparr> = Inr r \<and> in_range (- 2) 0 r"
  using smape_bounded
    [of "\<lparr>index = [0, 1], values = [Fin 10, Fin 0]\<rparr>"
        "\<lparr>index = [0, 1], values = [Fin 10, Fin 2]\<rparr>"]
  by (simp add: is_finite_def is_float64_def fsub_def rnd_simps)


subsection \<open>SMAPE under scaling\<close>

text \<open>
  C8, as stated, fails: a product \<open>c * y\<close> is rounded. With \<open>c\<close> the binary64 number
  nearest to \<open>0.1\<close>, \<open>y_true = [1]\<close> and \<open>y_pred = [3]\<close>, the score of the scaled series is
  \<open>- (1 + 2 ^ - 52)\<close>, that of the series themselves is \<open>-1\<close>.
\<close>

theorem smape_scale_counterexample:
  "is_float64 (Fin (3602879701896397 / 2 ^ 55))
   \<and> smape_score \<lparr>index = [0], values = [Fin 1]\<rparr> \<lparr>index = [0], values = [Fin 3]\<rparr>
       = Inr (Fin (- 1))
   \<and> smape_score (series_scale (Fin (3602879701896397 / 2 ^ 55)) \<lparr>index = [0], values = [Fin 1]\<rparr>)
        (series_scale (Fin (3602879701896397 / 2 ^ 55)) \<lparr>index = [0], values = [Fin 3]\<rparr>)
       = Inr (Fin (- (4503599627370497 / 2 ^ 52)))
   \<and> Fin (- (4503599627370497 / 2 ^ 52)) \<noteq> Fin (- 1)"
proof -
  have "smape_score \<lparr>index = [0], values = [Fin 1]\<rparr> \<lparr>index = [0], values = [Fin 3]\<rparr>
       = Inr (Fin (- 1))"
    by (simp add: smape_score_single series_mean_def np_sum_def fsub_def rnd_simps)
  moreover have "Fin (- (4503599627370497 / 2 ^ 52)) \<noteq> Fin (- 1)" by simp
  ultimately show ?thesis
    using scaled_by_tenth[OF refl] unfolding is_float64_def float64.case by blast
qed


text \<open>
  C8, amended. For every pair of series with the same index and finite binary64 values,
  and every constant \<open>c\<close> that is a power of two (\<open>2 ^ k\<close> or \<open>2 ^ - k\<close>), if at every
  point the two values, their difference and the sum of their absolute values scale by
  \<open>c\<close> without overflow or underflow, then \<open>smape_score (c * y_true) (c * y_pred)\<close> equals
  \<open>smape_score y_true y_pred\<close>.
\<close>

theorem smape_scale_invariant:
  assumes "index y_true = index y_pred"
    and "c = 2 ^ k \<or> c = 1 / 2 ^ k"
    and "\<forall>v\<in>set (values y_true) \<union> set (values y_pred). is_finite v \<and> is_float64 v"
    and "\<forall>(t, p)\<in>set (zip (values y_true) (values y_pred)). point_scales c t p"
  shows "smape_score (series_scale (Fin c) y_true) (series_scale (Fin c) y_pred)
         = smape_score y_true y_pred"
proof -
  let ?g = "\<lambda>x y. fdiv (fabs (fsub x y)) (fadd (fabs x) (fabs y))"
  have ix: "index (series_scale (Fin c) y_true) = index (series_scale (Fin c) y_pred)"
    using assms(1) by (simp add: series_scale_def)
  have "map2 ?g (map (fmul (Fin c)) (values y_true)) (map (fmul (Fin c)) (values y_pred))
      = map (\<lambda>(t, p). ?g (fmul (Fin c) t) (fmul (Fin c) p)) (zip (values y_true) (values y_pred))"
    by (simp add: zip_map_map split_beta)
  also have "\<dots> = map2 ?g (values y_true) (values y_pred)"
  proof (rule map_cong[OF refl], clarify)
    fix t p assume tp: "(t, p) \<in> set (zip (values y_true) (values y_pred))"
    then have "t \<in> set (values y_true)" "p \<in> set (values y_pred)"
      by (auto dest: set_zip_leftD set_zip_rightD)
    then have "is_finite t" "is_float64 t" "is_finite p" "is_float64 p"
      using assms(3) by auto
    then obtain x y where xy: "t = Fin x" "p = Fin y" "rnd x = Fin x" "rnd y = Fin y"
      by (elim finite_float64E) blast
    have "point_scales c (Fin x) (Fin y)" using assms(4) tp xy(1,2) by auto
    then show "?g (fmul (Fin c) t) (fmul (Fin c) p) = ?g t p"
      unfolding xy(1,2) using assms(2) xy(3,4) by (intro ratio_scale)
  qed
  finally have "values (series_div (series_abs (series_sub (series_scale (Fin c) y_true)
        (series_scale (Fin c) y_pred)))
      (series_add (series_abs (series_scale (Fin c) y_true))
        (series_abs (series_scale (Fin c) y_pred))))
    = values (series_div (series_abs (series_sub y_true y_pred))
        (series_add (series_abs y_true) (series_abs y_pred)))"
    unfolding smape_ratios by (simp add: series_scale_def)
  then have "series_mean (series_div (series_abs (series_sub (series_scale (Fin c) y_true)
        (series_scale (Fin c) y_pred)))
      (series_add (series_abs (series_scale (Fin c) y_true))
        (series_abs (series_scale (Fin c) y_pred))))
    = series_mean (series_div (series_abs (series_sub y_true y_pred))
        (series_add (series_abs y_true) (series_abs y_pred)))"
    by (simp add: series_mean_def)
  then show ?thesis unfolding smape_score_ok[OF ix] smape_score_ok[OF assms(1)] by simp
qed

theorem smape_scale_invariant_witness:
  "smape_score (series_scale (Fin 2) \<lparr>index = [0], values = [Fin 1]\<rparr>)
     (series_scale (Fin 2) \<lparr>index = [0], values = [Fin 3]\<rparr>) = Inr (Fin (- 1))"
  using smape_scale_invariant
    [of "\<lparr>index = [0], values = [Fin 1]\<rparr>" "\<lparr>index = [0], values = [Fin 3]\<rparr>" 2 1]
  by (simp add: is_finite_def is_float64_def point_scales_def scales_exactly_def
      min_normal_def max_float64_def smape_score_single series_mean_def np_sum_def fsub_def
      rnd_simps)

subsection \<open>Finiteness of MASE\<close>

text \<open>
  C9, as stated, fails: with \<open>y_train = [0, 1]\<close> the naive error \<open>mae_naive\<close> is \<open>1\<close>, not
  zero, and for \<open>y_true\<close> the largest binary64 number and \<open>y_pred\<close> its negative the
  difference overflows; the score is minus infinity.
\<close>

theorem mase_finite_counterexample:
  "is_float64 (Fin max_float64) \<and> is_float64 (Fin (- max_float64))
   \<and> mae_naive_spec [Fin 0, Fin 1] 1 = Fin 1
   \<and> mase_score \<lparr>index = [2], values = [Fin max_float64]\<rparr>
        \<lparr>index = [2], values = [Fin (- max_float64)]\<rparr>
        \<lparr>index = [0, 1], values = [Fin 0, Fin 1]\<rparr> 1 = Inr NInf
   \<and> \<not> is_finite NInf"
  by (simp add: mase_score_def check_consistent_time_indices_def validate_obs_horizon_def
      np_asarray_def slice_from_def slice_to_def slice_bound_def ndarray_sub_def
      np_mean_def np_sum_def series_mean_def series_abs_def series_sub_def fsub_def
      mae_naive_spec_def is_float64_def is_finite_def
      rnd_simps rnd_max_float64 rnd_twice_max_float64)


text \<open>
  C9, amended. For every input with \<open>sp \<ge> 1\<close>, \<open>n_obs \<ge> sp + 1\<close> that passes the
  validations, no error is raised and the score is \<open>- mae_pred / mae_naive\<close>. When
  \<open>mae_naive\<close> is zero, it is an infinity or NaN. It is finite whenever \<open>mae_pred\<close> is
  finite, \<open>mae_naive\<close> is finite and not zero, and the magnitude of their quotient is at
  most the largest binary64 number.
\<close>

theorem mase_finite:
  assumes "1 \<le> sp" and "sp + 1 \<le> int (length (values y_train))"
    and "index y_true = index y_pred"
    and "sorted (index y_train)" and "sorted (index y_pred)"
    and "\<not> ge_opt (index_max (index y_train)) (index_min (index y_pred))"
  shows "\<exists>d. ndarray_sub (slice_from (np_asarray y_train) sp)
               (slice_to (np_asarray y_train) (- sp)) = Inr d
     \<and> (let mae_naive = np_mean (map fabs d);
             mae_pred = series_mean (series_abs (series_sub y_true y_pred));
             r = fdiv (fneg mae_pred) mae_naive
         in mase_score y_true y_pred y_train sp = Inr r
          \<and> (mae_naive = Fin 0 \<longrightarrow> r = PInf \<or> r = NInf \<or> r = NaN)
          \<and> (\<forall>p q. mae_pred = Fin p \<and> mae_naive = Fin q \<and> q \<noteq> 0 \<and> \<bar>p / q\<bar> \<le> max_float64
                \<longrightarrow> is_finite r))"
proof -
  let ?a = "values y_train"
  have sp: "nat sp \<le> length ?a" "sp \<le> int (length ?a)" using assms(1,2) by simp_all
  have sl: "slice_from ?a sp = drop (nat sp) ?a"
    "slice_to ?a (- sp) = take (length ?a - nat sp) ?a"
    using naive_slices[OF assms(1) sp(2)] by simp_all
  define d where "d = map2 fsub (drop (nat sp) ?a) (take (length ?a - nat sp) ?a)"
  have sub: "ndarray_sub (slice_from ?a sp) (slice_to ?a (- sp)) = Inr d"
    using sp by (simp add: ndarray_sub_def sl d_def)
  define mn where "mn = np_mean (map fabs d)"
  define mp where "mp = series_mean (series_abs (series_sub y_true y_pred))"
  have score: "mase_score y_true y_pred y_train sp = Inr (fdiv (fneg mp) mn)"
    unfolding mase_score_ok[OF assms(3-6) sub] mn_def mp_def ..
  have zero: "fdiv (fneg mp) mn = PInf \<or> fdiv (fneg mp) mn = NInf \<or> fdiv (fneg mp) mn = NaN"
    if "mn = Fin 0"
    unfolding that by (rule fdiv_by_zero)
  have fin: "is_finite (fdiv (fneg mp) mn)"
    if "mp = Fin p" "mn = Fin q" "q \<noteq> 0" "\<bar>p / q\<bar> \<le> max_float64" for p q
    using that rnd_le_max_float64[of "- p / q"] by simp
  from sub score zero fin show ?thesis
    unfolding np_asarray_def Let_def mn_def mp_def by (intro exI[of _ d]) blast
qed

theorem mase_finite_witness:
  "\<exists>r. mase_score \<lparr>index = [5, 6], values = [Fin 20, Fin 22]\<rparr>
         \<lparr>index = [5, 6], values = [Fin 21, Fin 21]\<rparr>
         \<lparr>index = [0, 1, 2, 3, 4], values = [Fin 10, Fin 12, Fin 14, Fin 16, Fin 18]\<rparr> 1
       = Inr r \<and> is_finite r"
  using mase_finite
    [of 1 "\<lparr>index = [0, 1, 2, 3, 4], values = [Fin 10, Fin 12, Fin 14, Fin 16, Fin 18]\<rparr>"
        "\<lparr>index = [5, 6], values = [Fin 20, Fin 22]\<rparr>"
        "\<lparr>index = [5, 6], values = [Fin 21, Fin 21]\<rparr>"]
  by (simp add: np_asarray_def slice_from_def slice_to_def slice_bound_def ndarray_sub_def
      np_mean_def np_sum_def series_mean_def series_abs_def series_sub_def fsub_def
      is_finite_def max_float64_def rnd_simps)

subsection \<open>Index validation\<close>

text \<open>
  C4. For every pair \<open>y_true\<close>, \<open>y_pred\<close> whose time indices differ (in length, in
  timestamps or in order), both \<open>mase_score\<close> and \<open>smape_score\<close> raise
  \<^verbatim>\<open>InconsistentIndexError\<close>; the check is the first statement of either function,
  so no arithmetic has been done and no result is produced.
\<close>

theorem index_mismatch_raises:
  assumes "index y_true \<noteq> index y_pred"
  shows "mase_score y_true y_pred y_train sp = Inl InconsistentIndexError
       \<and> smape_score y_true y_pred = Inl InconsistentIndexError"
  using assms by (simp add: mase_score_def smape_score_def check_consistent_time_indices_def)

theorem index_mismatch_raises_witness:
  "index \<lparr>index = [5, 6], values = [Fin 20, Fin 22]\<rparr>
     \<noteq> index \<lparr>index = [6, 5], values = [Fin 21, Fin 21]\<rparr>
   \<and> mase_score \<lparr>index = [5, 6], values = [Fin 20, Fin 22]\<rparr>
         \<lparr>index = [6, 5], values = [Fin 21, Fin 21]\<rparr>
         \<lparr>index = [0, 1], values = [Fin 10, Fin 12]\<rparr> 1 = Inl InconsistentIndexError
   \<and> smape_score \<lparr>index = [5, 6], values = [Fin 20, Fin 22]\<rparr>
         \<lparr>index = [6, 5], values = [Fin 21, Fin 21]\<rparr> = Inl InconsistentIndexError"
  using index_mismatch_raises
    [of "\<lparr>index = [5, 6], values = [Fin 20, Fin 22]\<rparr>"
        "\<lparr>index = [6, 5], values = [Fin 21, Fin 21]\<rparr>"
        "\<lparr>index = [0, 1], values = [Fin 10, Fin 12]\<rparr>" 1]
  by simp

subsection \<open>Temporal ordering\<close>

text \<open>
  C3, as stated, fails: the ordering check is the third validation of \<open>mase_score\<close>, and
  a call that does not pass the two before it ends in their error. Here the training
  index ends at 4, the forecast index starts at 3, and the call raises
  \<^verbatim>\<open>InconsistentIndexError\<close>, because \<open>y_true\<close> and \<open>y_pred\<close> have different indices.
\<close>

theorem ordering_error_counterexample:
  "ge_opt (index_max (index \<lparr>index = [4], values = [Fin 1]\<rparr>))
          (index_min (index \<lparr>index = [3], values = [Fin 1]\<rparr>))
   \<and> mase_score \<lparr>index = [5], values = [Fin 1]\<rparr> \<lparr>index = [3], values = [Fin 1]\<rparr>
         \<lparr>index = [4], values = [Fin 1]\<rparr> 1 = Inl InconsistentIndexError
   \<and> InconsistentIndexError \<noteq> ValueError not_before_msg"
  by (simp add: mase_score_def check_consistent_time_indices_def)

text \<open>
  C3, amended. Let the last timestamp of \<open>y_train\<close>'s index be greater than or equal to
  the first timestamp of \<open>y_pred\<close>'s. Then every call ends in an error and returns no
  result, and a call that passes the validations before the check (\<open>y_true\<close> and
  \<open>y_pred\<close> have the same index, the indices of \<open>y_train\<close> and \<open>y_pred\<close> are
  monotonically ordered) raises the \<^verbatim>\<open>ValueError\<close> with the message that \<open>y_train\<close>
  is not before \<open>y_pred\<close>. Conversely, when the last training timestamp is strictly less
  than the first forecast timestamp, no call raises this error.
\<close>

theorem ordering_error:
  assumes "index y_train \<noteq> []" and "index y_pred \<noteq> []"
  shows "(Min (set (index y_pred)) \<le> Max (set (index y_train))
           \<longrightarrow> (\<exists>e. mase_score y_true y_pred y_train sp = Inl e)
             \<and> (index y_true = index y_pred \<and> sorted (index y_train) \<and> sorted (index y_pred)
                \<longrightarrow> mase_score y_true y_pred y_train sp = Inl (ValueError not_before_msg)))
       \<and> (Max (set (index y_train)) < Min (set (index y_pred))
           \<longrightarrow> mase_score y_true y_pred y_train sp \<noteq> Inl (ValueError not_before_msg))"
proof -
  define a where "a = Max (set (index y_train))"
  define b where "b = Min (set (index y_pred))"
  have ge: "ge_opt (index_max (index y_train)) (index_min (index y_pred)) = (b \<le> a)"
    using assms by (simp add: index_max_Max index_min_Min a_def b_def)
  have err: "\<exists>e. mase_score y_true y_pred y_train sp = Inl e" if "b \<le> a"
    using that
    by (auto simp: mase_score_def check_consistent_time_indices_def validate_obs_horizon_def ge
        Let_def)
  have raised: "mase_score y_true y_pred y_train sp = Inl (ValueError not_before_msg)"
    if "b \<le> a" "index y_true = index y_pred" "sorted (index y_train)" "sorted (index y_pred)"
    using that
    by (simp add: mase_score_def check_consistent_time_indices_def validate_obs_horizon_def ge)
  have not_raised: "mase_score y_true y_pred y_train sp \<noteq> Inl (ValueError not_before_msg)"
    if "a < b"
    using that
    by (simp add: mase_score_def check_consistent_time_indices_def validate_obs_horizon_def ge
        ndarray_sub_def not_before_msg_def Let_def split: sum.splits)
  from err raised not_raised show ?thesis unfolding a_def b_def by blast
qed

theorem ordering_error_witness:
  "mase_score \<lparr>index = [4, 5], values = [Fin 20, Fin 22]\<rparr>
     \<lparr>index = [4, 5], values = [Fin 21, Fin 21]\<rparr>
     \<lparr>index = [0, 1, 2, 3, 4], values = [Fin 10, Fin 12, Fin 14, Fin 16, Fin 18]\<rparr> 1
     = Inl (ValueError not_before_msg)
   \<and> mase_score \<lparr>index = [5, 6], values = [Fin 20, Fin 22]\<rparr>
     \<lparr>index = [5, 6], values = [Fin 21, Fin 21]\<rparr>
     \<lparr>index = [0, 1, 2, 3, 4], values = [Fin 10, Fin 12, Fin 14, Fin 16, Fin 18]\<rparr> 1
     \<noteq> Inl (ValueError not_before_msg)"
  using ordering_error
    [of "\<lparr>index = [0, 1, 2, 3, 4], values = [Fin 10, Fin 12, Fin 14, Fin 16, Fin 18]\<rparr>"
        "\<lparr>index = [4, 5], values = [Fin 21, Fin 21]\<rparr>"
        "\<lparr>index = [4, 5], values = [Fin 20, Fin 22]\<rparr>" 1]
    ordering_error
    [of "\<lparr>index = [0, 1, 2, 3, 4], values = [Fin 10, Fin 12, Fin 14, Fin 16, Fin 18]\<rparr>"
        "\<lparr>index = [5, 6], values = [Fin 21, Fin 21]\<rparr>"
        "\<lparr>index = [5, 6], values = [Fin 20, Fin 22]\<rparr>" 1]
  by simp

subsection \<open>A training series no longer than the seasonal period\<close>

text \<open>
  C10. When \<open>mase_score\<close> is called with a \<open>y_train\<close> of length \<open>n_obs \<le> sp\<close> and all
  index validations pass, no error is raised: both slices of the training array are
  empty, the mean of the empty array of naive errors is NaN, and the call returns NaN.
\<close>

theorem short_training_series_nan:
  assumes "index y_true = index y_pred"
    and "sorted (index y_train)" and "sorted (index y_pred)"
    and "\<not> ge_opt (index_max (index y_train)) (index_min (index y_pred))"
    and "int (length (values y_train)) \<le> sp"
  shows "slice_from (np_asarray y_train) sp = []
       \<and> slice_to (np_asarray y_train) (- sp) = []
       \<and> np_mean (map fabs []) = NaN
       \<and> mase_score y_true y_pred y_train sp = Inr NaN"
  using assms slices_short[of "values y_train" sp]
  by (simp add: mase_score_def check_consistent_time_indices_def validate_obs_horizon_def
      np_asarray_def ndarray_sub_def np_mean_Nil fdiv_NaN_right)

theorem short_training_series_nan_witness:
  "index \<lparr>index = [5], values = [Fin 20]\<rparr> = index \<lparr>index = [5], values = [Fin 21]\<rparr>
   \<and> sorted (index \<lparr>index = [0, 1], values = [Fin 10, Fin 12]\<rparr>)
   \<and> sorted (index \<lparr>index = [5], values = [Fin 21]\<rparr>)
   \<and> \<not> ge_opt (index_max (index \<lparr>index = [0, 1], values = [Fin 10, Fin 12]\<rparr>))
         (index_min (index \<lparr>index = [5], values = [Fin 21]\<rparr>))
   \<and> int (length (values \<lparr>index = [0, 1], values = [Fin 10, Fin 12]\<rparr>)) \<le> 2
   \<and> mase_score \<lparr>index = [5], values = [Fin 20]\<rparr> \<lparr>index = [5], values = [Fin 21]\<rparr>
         \<lparr>index = [0, 1], values = [Fin 10, Fin 12]\<rparr> 2 = Inr NaN"
  using short_training_series_nan
    [of "\<lparr>index = [5], values = [Fin 20]\<rparr>" "\<lparr>index = [5], values = [Fin 21]\<rparr>"
        "\<lparr>index = [0, 1], values = [Fin 10, Fin 12]\<rparr>" 2]
  by simp

end
